theory Spec2Isabelle
  imports Complex_Main "HOL-Library.AList"
begin

text \<open>
  A model of \<open>extract_exif.py\<close>: the construction of decimal coordinates from EXIF GPS data
  (\<open>dms_to_decimal\<close>, \<open>get_gps_info\<close>), the inference of a location from the photos of nearby
  days (\<open>infer_location\<close>) and the two passes of \<open>scan_images\<close>.  Reading files, parsing the
  capture date and converting HEIC images are library calls; their results are part of the
  input.
\<close>

section \<open>Python values, exceptions and floats\<close>

text \<open>
  The exceptions that the modelled code can meet.  A computation that may raise returns
  \<open>pyerror + 'a\<close>, with \<open>Inl\<close> for the exception.
\<close>

datatype pyerror =
  KeyError | TypeError | ZeroDivisionError | IndexError | ValueError | OverflowError

definition py_bind :: "pyerror + 'a \<Rightarrow> ('a \<Rightarrow> pyerror + 'b) \<Rightarrow> pyerror + 'b" where
  "py_bind r f = (case r of Inl e \<Rightarrow> Inl e | Inr v \<Rightarrow> f v)"

text \<open>
  A Python \<open>float\<close> is an IEEE 754 binary64 value: a finite number (with \<open>Fin 0\<close> for
  \<open>+0.0\<close>), negative zero, an infinity or NaN.  Every arithmetic operation computes the exact
  rational result and rounds it to the nearest binary64 value, ties to even (\<open>fl\<close>).
\<close>

datatype pyfloat = Fin rat | NegZero | PosInf | NegInf | NaN

function bit_length :: "int \<Rightarrow> int" where
  "bit_length n = (if n \<le> 0 then 0 else bit_length (n div 2) + 1)"
  by pat_completeness auto
termination
  by (relation "measure nat") auto

declare bit_length.simps [simp del]

definition ilog2 :: "rat \<Rightarrow> int" where
  \<comment> \<open>\<open>\<lfloor>log\<^sub>2 a\<rfloor>\<close> for a positive rational\<close>
  "ilog2 a = (case quotient_of a of (p, q) \<Rightarrow>
     let k = bit_length p - bit_length q
     in if 2 powi k \<le> a then k else k - 1)"

definition round_half_even :: "rat \<Rightarrow> int" where
  "round_half_even x = (let f = \<lfloor>x\<rfloor>; d = x - of_int f
     in if d < 1 / 2 then f else if 1 / 2 < d then f + 1 else if even f then f else f + 1)"

definition fl :: "rat \<Rightarrow> pyfloat" where
  \<comment> \<open>53 significant bits, least exponent \<open>-1074\<close> (subnormals); the largest finite value is
      \<open>(2\<^sup>5\<^sup>3 - 1) * 2\<^sup>9\<^sup>7\<^sup>1\<close>, beyond it the result is an infinity\<close>
  "fl x = (if x = 0 then Fin 0 else
     let a = \<bar>x\<bar>;
         e = max (ilog2 a - 52) (- 1074);
         m = round_half_even (a / 2 powi e);
         r = of_int m * 2 powi e
     in if 971 < e \<or> (e = 971 \<and> 2 ^ 53 \<le> m) then (if x < 0 then NegInf else PosInf)
        else if m = 0 then (if x < 0 then NegZero else Fin 0)
        else Fin (if x < 0 then - r else r))"

fun is_zero :: "pyfloat \<Rightarrow> bool" where
  "is_zero (Fin r) = (r = 0)"
| "is_zero NegZero = True"
| "is_zero _ = False"

fun is_inf :: "pyfloat \<Rightarrow> bool" where
  "is_inf PosInf = True"
| "is_inf NegInf = True"
| "is_inf _ = False"

fun sign_bit :: "pyfloat \<Rightarrow> bool" where
  "sign_bit (Fin r) = (r < 0)"
| "sign_bit NegZero = True"
| "sign_bit NegInf = True"
| "sign_bit _ = False"

definition signed_zero :: "bool \<Rightarrow> pyfloat" where
  "signed_zero neg = (if neg then NegZero else Fin 0)"

definition signed_inf :: "bool \<Rightarrow> pyfloat" where
  "signed_inf neg = (if neg then NegInf else PosInf)"

fun py_neg :: "pyfloat \<Rightarrow> pyfloat" where
  "py_neg (Fin r) = (if r = 0 then NegZero else Fin (- r))"
| "py_neg NegZero = Fin 0"
| "py_neg PosInf = NegInf"
| "py_neg NegInf = PosInf"
| "py_neg NaN = NaN"

fun py_add :: "pyfloat \<Rightarrow> pyfloat \<Rightarrow> pyfloat" where
  "py_add NaN y = NaN"
| "py_add x NaN = NaN"
| "py_add PosInf NegInf = NaN"
| "py_add NegInf PosInf = NaN"
| "py_add PosInf y = PosInf"
| "py_add x PosInf = PosInf"
| "py_add NegInf y = NegInf"
| "py_add x NegInf = NegInf"
| "py_add NegZero y = y"
| "py_add x NegZero = x"
| "py_add (Fin a) (Fin b) = fl (a + b)"

definition fdiv :: "pyfloat \<Rightarrow> pyfloat \<Rightarrow> pyfloat" where
  \<comment> \<open>IEEE division\<close>
  "fdiv x y =
     (if x = NaN \<or> y = NaN then NaN
      else let neg = (sign_bit x \<noteq> sign_bit y)
        in if is_inf x then (if is_inf y then NaN else signed_inf neg)
           else if is_inf y then signed_zero neg
           else if is_zero y then (if is_zero x then NaN else signed_inf neg)
           else if is_zero x then signed_zero neg
           else (case (x, y) of (Fin a, Fin b) \<Rightarrow> fl (a / b) | _ \<Rightarrow> NaN))"

definition py_truediv :: "pyfloat \<Rightarrow> pyfloat \<Rightarrow> pyerror + pyfloat" where
  \<comment> \<open>\<open>x / y\<close> on floats: a zero divisor raises\<close>
  "py_truediv x y = (if is_zero y then Inl ZeroDivisionError else Inr (fdiv x y))"

definition py_round :: "pyfloat \<Rightarrow> nat \<Rightarrow> pyfloat" where
  \<comment> \<open>\<open>round(x, ndigits)\<close>: the exact value of \<open>x\<close> is rounded half-to-even to \<open>ndigits\<close>
      decimals and the decimal result is converted back to the nearest float; the sign
      is kept, infinities and NaN round to themselves\<close>
  "py_round x ndigits = (case x of
       Fin r \<Rightarrow>
         (let q = round_half_even (r * 10 ^ ndigits)
          in if q = 0 then signed_zero (r < 0) else fl (of_int q / 10 ^ ndigits))
     | _ \<Rightarrow> x)"

text \<open>
  The values that decoded EXIF fields hold.  \<open>PyFloat\<close> stands for a float and for any
  other real-number object by the value \<open>float()\<close> gives for it (Pillow's rationals).
\<close>

datatype pyval = PyNone | PyInt int | PyFloat pyfloat | PyStr string | PyTuple "pyval list"

text \<open>
  What the run depends on outside the source file: whether \<open>pillow_heif\<close> could be imported,
  the local calendar date of a timestamp in epoch milliseconds
  (\<open>datetime.fromtimestamp(ms / 1000).date()\<close>, as a day number, so that the difference of two
  dates in days is the difference of the numbers), and the number that \<open>float()\<close> reads from a
  string (\<open>None\<close> where it raises \<open>ValueError\<close>).  The date conversion is taken to succeed on
  every timestamp, as it does on those that \<open>get_date_taken\<close> has produced.
\<close>

record runtime =
  HEIC_SUPPORT :: bool
  local_date :: "int \<Rightarrow> int"
  str_to_float :: "string \<Rightarrow> pyfloat option"

fun py_float :: "runtime \<Rightarrow> pyval \<Rightarrow> pyerror + pyfloat" where
  "py_float env PyNone = Inl TypeError"
| "py_float env (PyInt n) =
     (let f = fl (of_int n) in if is_inf f then Inl OverflowError else Inr f)"
| "py_float env (PyFloat f) = Inr f"
| "py_float env (PyStr s) =
     (case str_to_float env s of None \<Rightarrow> Inl ValueError | Some f \<Rightarrow> Inr f)"
| "py_float env (PyTuple xs) = Inl TypeError"

fun py_getitem :: "pyval \<Rightarrow> nat \<Rightarrow> pyerror + pyval" where
  "py_getitem (PyTuple xs) i = (if i < length xs then Inr (xs ! i) else Inl IndexError)"
| "py_getitem (PyStr s) i = (if i < length s then Inr (PyStr [s ! i]) else Inl IndexError)"
| "py_getitem _ i = Inl TypeError"

section \<open>Coordinate construction\<close>

definition dms_to_decimal :: "runtime \<Rightarrow> pyval \<Rightarrow> pyval \<Rightarrow> pyerror + pyfloat" where
  "dms_to_decimal env dms ref =
     py_bind (py_getitem dms 0) (\<lambda>d0. py_bind (py_float env d0) (\<lambda>degrees.
     py_bind (py_getitem dms 1) (\<lambda>d1. py_bind (py_float env d1) (\<lambda>minutes.
     py_bind (py_getitem dms 2) (\<lambda>d2. py_bind (py_float env d2) (\<lambda>seconds.
     py_bind (py_truediv minutes (Fin 60)) (\<lambda>mq.
     py_bind (py_truediv seconds (Fin 3600)) (\<lambda>sq.
       let decimal = py_add (py_add degrees mq) sq;
           decimal = (if ref = PyStr ''S'' \<or> ref = PyStr ''W'' then py_neg decimal else decimal)
       in Inr (py_round decimal 6)))))))))"

definition py_dict_get :: "(string \<times> pyval) list \<Rightarrow> string \<Rightarrow> pyerror + pyval" where
  \<comment> \<open>\<open>gps[key]\<close>\<close>
  "py_dict_get d k = (case map_of d k of None \<Rightarrow> Inl KeyError | Some v \<Rightarrow> Inr v)"

definition get_gps_info ::
  "runtime \<Rightarrow> (string \<times> pyval) list option \<Rightarrow> pyerror + (pyfloat option \<times> pyfloat option)" where
  \<comment> \<open>the argument is \<open>exif.get("GPSInfo")\<close> with its keys already decoded to tag names\<close>
  "get_gps_info env gps_raw = (case gps_raw of
       None \<Rightarrow> Inr (None, None)
     | Some gps \<Rightarrow>
         if gps = [] then Inr (None, None)
         else
           (case
              py_bind (py_dict_get gps ''GPSLatitude'') (\<lambda>la.
              py_bind (py_dict_get gps ''GPSLatitudeRef'') (\<lambda>laref.
              py_bind (dms_to_decimal env la laref) (\<lambda>lat.
              py_bind (py_dict_get gps ''GPSLongitude'') (\<lambda>lo.
              py_bind (py_dict_get gps ''GPSLongitudeRef'') (\<lambda>loref.
              py_bind (dms_to_decimal env lo loref) (\<lambda>lng.
                Inr (Some lat, Some lng)))))))
            of
              Inl e \<Rightarrow>
                if e = KeyError \<or> e = TypeError \<or> e = ZeroDivisionError
                then Inr (None, None) else Inl e
            | Inr r \<Rightarrow> Inr r))"

text \<open>
  The DMS values on which \<open>dms_to_decimal\<close> raises \<open>TypeError\<close>, the one exception of its own
  that \<open>get_gps_info\<close> catches.
\<close>

fun float_type_error :: "runtime \<Rightarrow> pyval list \<Rightarrow> bool" where
  \<comment> \<open>\<open>float()\<close> succeeds on the components up to one on which it raises \<open>TypeError\<close>\<close>
  "float_type_error env [] = False"
| "float_type_error env (x # xs) =
     (case py_float env x of Inl e \<Rightarrow> e = TypeError | Inr _ \<Rightarrow> float_type_error env xs)"

fun dms_type_error :: "runtime \<Rightarrow> pyval \<Rightarrow> bool" where
  \<comment> \<open>a DMS value of a non-numeric type: not a sequence at all, or a tuple in which the first
      of the three components that is not a number is \<open>None\<close> or a nested tuple\<close>
  "dms_type_error env (PyTuple xs) = float_type_error env (take 3 xs)"
| "dms_type_error env (PyStr s) = False"
| "dms_type_error env _ = True"

section \<open>The day index and location inference\<close>

text \<open>
  \<open>day_locations\<close> is a \<open>defaultdict(list)\<close> from dates to lists of \<open>(lat, lng)\<close> pairs.  It is an
  association list in insertion order, which is the order in which Python iterates over it.
  Reading a missing key of a \<open>defaultdict\<close> inserts the key with an empty list.
\<close>

type_synonym day_index = "(int \<times> (pyfloat \<times> pyfloat) list) list"

definition dd_getitem :: "day_index \<Rightarrow> int \<Rightarrow> (pyfloat \<times> pyfloat) list \<times> day_index" where
  \<comment> \<open>\<open>day_locations[k]\<close>\<close>
  "dd_getitem d k = (case map_of d k of
       Some v \<Rightarrow> (v, d)
     | None \<Rightarrow> ([], AList.update k [] d))"

definition dd_append :: "day_index \<Rightarrow> int \<Rightarrow> pyfloat \<times> pyfloat \<Rightarrow> day_index" where
  \<comment> \<open>\<open>day_locations[k].append(c)\<close>\<close>
  "dd_append d k c = (case dd_getitem d k of (v, d') \<Rightarrow> AList.update k (v @ [c]) d')"

fun nearest_day :: "int \<Rightarrow> int list \<Rightarrow> (int \<times> int) option \<Rightarrow> (int \<times> int) option" where
  \<comment> \<open>the loop of \<open>infer_location\<close>; \<open>best_day\<close> and \<open>best_delta\<close> are set together, so they are
      one optional pair\<close>
  "nearest_day photo_date [] best = best"
| "nearest_day photo_date (day # days) best =
     (let delta = \<bar>day - photo_date\<bar>
      in nearest_day photo_date days
           (case best of
              None \<Rightarrow> Some (day, delta)
            | Some (best_day, best_delta) \<Rightarrow>
                if delta < best_delta then Some (day, delta) else best))"

definition py_sum :: "pyfloat list \<Rightarrow> pyfloat" where
  \<comment> \<open>\<open>sum\<close> adds from the left, starting from the int \<open>0\<close> (CPython through 3.11; later
      versions also carry a compensation term, which matters only where an addition rounds)\<close>
  "py_sum xs = foldl py_add (Fin 0) xs"

definition py_truediv_len :: "pyfloat \<Rightarrow> nat \<Rightarrow> pyerror + pyfloat" where
  \<comment> \<open>\<open>x / len(coords)\<close>: the length is converted to a float, and only length 0 is a zero
      divisor\<close>
  "py_truediv_len x n = (if n = 0 then Inl ZeroDivisionError else Inr (fdiv x (fl (of_nat n))))"

definition rounded_mean :: "pyfloat list \<Rightarrow> pyerror + pyfloat" where
  \<comment> \<open>\<open>round(sum(xs) / len(xs), 6)\<close>\<close>
  "rounded_mean xs = py_bind (py_truediv_len (py_sum xs) (length xs)) (\<lambda>q. Inr (py_round q 6))"

definition infer_location ::
  "runtime \<Rightarrow> int \<Rightarrow> day_index \<Rightarrow>
     pyerror + ((pyfloat option \<times> pyfloat option \<times> int option) \<times> day_index)" where
  \<comment> \<open>returns the triple of the source and the dictionary as the call leaves it\<close>
  "infer_location env timestamp_ms dl =
     (if dl = [] then Inr ((None, None, None), dl)
      else
        let photo_date = local_date env timestamp_ms
        in case nearest_day photo_date (map fst dl) None of
             None \<Rightarrow> Inr ((None, None, None), dl)
           | Some (best_day, best_delta) \<Rightarrow>
               if best_delta > 3 then Inr ((None, None, None), dl)
               else
                 (case dd_getitem dl best_day of (coords, dl') \<Rightarrow>
                    py_bind (rounded_mean (map fst coords)) (\<lambda>avg_lat.
                    py_bind (rounded_mean (map snd coords)) (\<lambda>avg_lng.
                      Inr ((Some avg_lat, Some avg_lng, Some best_delta), dl')))))"

section \<open>The two-pass scan\<close>

text \<open>
  One discovered file, with what the library calls return for it: \<open>filepath.name\<close>,
  \<open>str(filepath)\<close>, whether the suffix is a HEIC one, the \<open>GPSInfo\<close> entry of
  \<open>get_exif_data(filepath)\<close>, the result of \<open>get_date_taken\<close> on that EXIF data, and the
  result of \<open>convert_heic_to_jpeg(filepath)\<close> as a string (\<open>None\<close> when the conversion fails).
\<close>

record image_file =
  file_name :: string
  file_path :: string
  is_heic :: bool
  GPSInfo :: "(string \<times> pyval) list option"
  date_taken :: "int option"
  converted :: "string option"

text \<open>An \<open>entry\<close> dictionary; a key that is not set is \<open>None\<close>.\<close>

record entry =
  filename :: string
  path :: string
  timestamp :: int
  lat :: "pyfloat option"
  lng :: "pyfloat option"
  approximate :: "bool option"

text \<open>The local variables of \<open>scan_images\<close>.\<close>

record scan_state =
  geotagged :: "entry list"
  no_gps :: "entry list"
  day_locations :: day_index
  inferred_count :: int
  still_missing :: int

definition initial_state :: scan_state where
  "initial_state =
     \<lparr>geotagged = [], no_gps = [], day_locations = [], inferred_count = 0, still_missing = 0\<rparr>"

definition scan_file :: "runtime \<Rightarrow> scan_state \<Rightarrow> image_file \<Rightarrow> pyerror + scan_state" where
  \<comment> \<open>the body of the loop of pass 1\<close>
  "scan_file env st f =
     (if is_heic f \<and> \<not> HEIC_SUPPORT env then Inr st
      else
        py_bind (get_gps_info env (GPSInfo f)) (\<lambda>(lat_v, lng_v).
          case date_taken f of
            None \<Rightarrow> Inr st
          | Some ts \<Rightarrow>
              (case (if is_heic f then converted f else Some (file_path f)) of
                 None \<Rightarrow> Inr st
               | Some serve_path \<Rightarrow>
                   let e = \<lparr>filename = file_name f, path = serve_path, timestamp = ts,
                            lat = None, lng = None, approximate = None\<rparr>
                   in if lat_v \<noteq> None \<and> lng_v \<noteq> None then
                        let e = e\<lparr>lat := lat_v, lng := lng_v, approximate := Some False\<rparr>;
                            photo_date = local_date env ts
                        in Inr (st\<lparr>geotagged := geotagged st @ [e],
                                   day_locations :=
                                     dd_append (day_locations st) photo_date
                                       (the lat_v, the lng_v)\<rparr>)
                      else Inr (st\<lparr>no_gps := no_gps st @ [e]\<rparr>))))"

fun pass1 :: "runtime \<Rightarrow> scan_state \<Rightarrow> image_file list \<Rightarrow> pyerror + scan_state" where
  "pass1 env st [] = Inr st"
| "pass1 env st (f # files) = py_bind (scan_file env st f) (\<lambda>st'. pass1 env st' files)"

definition infer_entry :: "runtime \<Rightarrow> scan_state \<Rightarrow> entry \<Rightarrow> pyerror + scan_state" where
  \<comment> \<open>the body of the loop of pass 2\<close>
  "infer_entry env st e =
     py_bind (infer_location env (timestamp e) (day_locations st)) (\<lambda>((lat_v, lng_v, day_delta), dl).
       if lat_v \<noteq> None then
         Inr (st\<lparr>geotagged := geotagged st @ [e\<lparr>lat := lat_v, lng := lng_v, approximate := Some True\<rparr>],
                 day_locations := dl,
                 inferred_count := inferred_count st + 1\<rparr>)
       else Inr (st\<lparr>day_locations := dl, still_missing := still_missing st + 1\<rparr>))"

fun pass2 :: "runtime \<Rightarrow> scan_state \<Rightarrow> entry list \<Rightarrow> pyerror + scan_state" where
  "pass2 env st [] = Inr st"
| "pass2 env st (e # es) = py_bind (infer_entry env st e) (\<lambda>st'. pass2 env st' es)"

text \<open>
  What \<open>scan_images\<close> returns (\<open>photos\<close>) and the three numbers of its summary, for the sorted
  list of image files it found.
\<close>

record scan_result =
  photos :: "entry list"
  exact_gps :: int
  inferred :: int
  unresolved :: int

definition scan_images :: "runtime \<Rightarrow> image_file list \<Rightarrow> pyerror + scan_result" where
  "scan_images env files =
     py_bind (pass1 env initial_state files) (\<lambda>st1.
     py_bind (pass2 env st1 (no_gps st1)) (\<lambda>st2.
       Inr \<lparr>photos = geotagged st2,
            exact_gps = int (length (geotagged st2)) - inferred_count st2,
            inferred = inferred_count st2,
            unresolved = still_missing st2\<rparr>))"

section \<open>The specification's view of the scan\<close>

text \<open>
  The specification describes the result by records rather than by loops.  The following
  definitions follow its words; the theorems below compare them with the code.

  A file is usable when it reaches the classification at the end of the loop body: it is not
  skipped for missing HEIC support, it has a timestamp, and its conversion (if it needs one)
  has succeeded.
\<close>

definition usable :: "runtime \<Rightarrow> image_file \<Rightarrow> bool" where
  "usable env f \<longleftrightarrow>
     \<not> (is_heic f \<and> \<not> HEIC_SUPPORT env) \<and> date_taken f \<noteq> None \<and>
     (\<not> is_heic f \<or> converted f \<noteq> None)"

definition base_entry :: "image_file \<Rightarrow> entry" where
  "base_entry f =
     \<lparr>filename = file_name f,
      path = (if is_heic f then the (converted f) else file_path f),
      timestamp = the (date_taken f),
      lat = None, lng = None, approximate = None\<rparr>"

definition exact_record :: "runtime \<Rightarrow> image_file \<Rightarrow> entry option" where
  \<comment> \<open>the PhotoRecord of a usable file that carries a coordinate\<close>
  "exact_record env f =
     (if usable env f then
        (case get_gps_info env (GPSInfo f) of
           Inr (Some la, Some lo) \<Rightarrow>
             Some ((base_entry f)\<lparr>lat := Some la, lng := Some lo, approximate := Some False\<rparr>)
         | _ \<Rightarrow> None)
      else None)"

definition pending_record :: "runtime \<Rightarrow> image_file \<Rightarrow> entry option" where
  \<comment> \<open>the pending record of a usable file without a coordinate\<close>
  "pending_record env f =
     (if usable env f then
        (case get_gps_info env (GPSInfo f) of
           Inr (Some la, Some lo) \<Rightarrow> None
         | Inr _ \<Rightarrow> Some (base_entry f)
         | Inl _ \<Rightarrow> None)
      else None)"

definition inferred_record :: "runtime \<Rightarrow> day_index \<Rightarrow> entry \<Rightarrow> entry option" where
  \<comment> \<open>the PhotoRecord that inference gives for a pending record, if any\<close>
  "inferred_record env dl e =
     (case infer_location env (timestamp e) dl of
        Inr ((Some la, lo, _), _) \<Rightarrow> Some (e\<lparr>lat := Some la, lng := lo, approximate := Some True\<rparr>)
      | _ \<Rightarrow> None)"

definition entry_day :: "runtime \<Rightarrow> entry \<Rightarrow> int" where
  "entry_day env e = local_date env (timestamp e)"

definition entry_coord :: "entry \<Rightarrow> pyfloat \<times> pyfloat" where
  "entry_coord e = (the (lat e), the (lng e))"

definition index_of :: "runtime \<Rightarrow> entry list \<Rightarrow> day_index" where
  \<comment> \<open>the DayIndex of a sequence of exact records: one \<open>insert\<close> per record, in order\<close>
  "index_of env es = foldl (\<lambda>d e. dd_append d (entry_day env e) (entry_coord e)) [] es"

definition index_ok :: "day_index \<Rightarrow> bool" where
  \<comment> \<open>what holds of a dictionary built by appending: the keys are distinct and no list is empty\<close>
  "index_ok dl \<longleftrightarrow> distinct (map fst dl) \<and> [] \<notin> snd ` set dl"

definition min_delta :: "int \<Rightarrow> day_index \<Rightarrow> int" where
  \<comment> \<open>the least distance in days from a date to a day of a non-empty index\<close>
  "min_delta photo_date dl = Min ((\<lambda>day. \<bar>day - photo_date\<bar>) ` fst ` set dl)"

text \<open>
  The effect of one file on the locals of \<open>scan_images\<close> in pass 1, and the exception, if
  any, with which reading the file ends the run.
\<close>

definition gps_error :: "runtime \<Rightarrow> image_file \<Rightarrow> pyerror option" where
  \<comment> \<open>only \<open>get_gps_info\<close> can raise, and it is not called for a skipped HEIC file\<close>
  "gps_error env f =
     (if is_heic f \<and> \<not> HEIC_SUPPORT env then None
      else case get_gps_info env (GPSInfo f) of Inl e \<Rightarrow> Some e | Inr _ \<Rightarrow> None)"

definition add_file :: "runtime \<Rightarrow> scan_state \<Rightarrow> image_file \<Rightarrow> scan_state" where
  "add_file env st f =
     (case exact_record env f of
        Some e \<Rightarrow>
          st\<lparr>geotagged := geotagged st @ [e],
             day_locations := dd_append (day_locations st) (entry_day env e) (entry_coord e)\<rparr>
      | None \<Rightarrow>
          (case pending_record env f of
             Some e \<Rightarrow> st\<lparr>no_gps := no_gps st @ [e]\<rparr>
           | None \<Rightarrow> st))"

text \<open>The effect of one pending record in pass 2.\<close>

definition add_inferred :: "runtime \<Rightarrow> scan_state \<Rightarrow> entry \<Rightarrow> scan_state" where
  "add_inferred env st e =
     (case inferred_record env (day_locations st) e of
        Some e' \<Rightarrow> st\<lparr>geotagged := geotagged st @ [e'], inferred_count := inferred_count st + 1\<rparr>
      | None \<Rightarrow> st\<lparr>still_missing := still_missing st + 1\<rparr>)"

text \<open>The distinct elements of a list, in the order in which they first occur.\<close>

fun first_occurrences :: "'a list \<Rightarrow> 'a list" where
  "first_occurrences [] = []"
| "first_occurrences (x # xs) = x # filter (\<lambda>y. y \<noteq> x) (first_occurrences xs)"

text \<open>
  The result as the specification gives it: the exact records in input order, then the
  inferred ones in the order of the pending pool, and the three counts.
\<close>

definition spec_result :: "runtime \<Rightarrow> image_file list \<Rightarrow> scan_result" where
  "spec_result env files =
     (let exact = List.map_filter (exact_record env) files;
          pending = List.map_filter (pending_record env) files;
          index = index_of env exact;
          approx = List.map_filter (inferred_record env index) pending
      in \<lparr>photos = exact @ approx,
           exact_gps = int (length exact),
           inferred = int (length approx),
           unresolved = int (length (filter (\<lambda>e. inferred_record env index e = None) pending))\<rparr>)"

section \<open>Example inputs\<close>

text \<open>
  A runtime in UTC with HEIC support: day numbers count from 0001-01-01 as day 1, as
  \<open>date.toordinal\<close> does, so 1970-01-01 is day 719163.  The one string that an example
  passes to \<open>float()\<close> is \<open>abc\<close>, which it rejects.
\<close>

definition utc :: runtime where
  "utc = \<lparr>HEIC_SUPPORT = True,
          local_date = (\<lambda>ms. 719163 + ms div 86400000),
          str_to_float = (\<lambda>s. None)\<rparr>"

definition noon :: "int \<Rightarrow> int" where
  \<comment> \<open>12:00 UTC on the given day of January 2024, in epoch milliseconds\<close>
  "noon day = 1704110400000 + (day - 1) * 86400000"

definition gps_block :: "int \<Rightarrow> string \<Rightarrow> int \<Rightarrow> string \<Rightarrow> (string \<times> pyval) list" where
  \<comment> \<open>a GPS block with whole degrees\<close>
  "gps_block la laref lo loref =
     [(''GPSLatitude'', PyTuple [PyInt la, PyInt 0, PyInt 0]), (''GPSLatitudeRef'', PyStr laref),
      (''GPSLongitude'', PyTuple [PyInt lo, PyInt 0, PyInt 0]), (''GPSLongitudeRef'', PyStr loref)]"

definition jpeg :: "string \<Rightarrow> int \<Rightarrow> (string \<times> pyval) list option \<Rightarrow> image_file" where
  "jpeg n day gps =
     \<lparr>file_name = n, file_path = ''images/'' @ n, is_heic = False, GPSInfo = gps,
      date_taken = Some (noon day), converted = None\<rparr>"

definition heic :: "string \<Rightarrow> int \<Rightarrow> (string \<times> pyval) list option \<Rightarrow> string option \<Rightarrow> image_file" where
  "heic n day gps conv =
     \<lparr>file_name = n, file_path = ''images/'' @ n, is_heic = True, GPSInfo = gps,
      date_taken = Some (noon day), converted = conv\<rparr>"

text \<open>
  An album in sorted order: two pending photos, taken on 4 and 5 January, and two photos
  with coordinates, both taken on 1 January.
\<close>

definition album :: "image_file list" where
  "album =
     [jpeg ''a.jpg'' 4 None,
      jpeg ''b.jpg'' 1 (Some (gps_block 10 ''N'' 20 ''E'')),
      jpeg ''c.jpg'' 5 None,
      jpeg ''d.jpg'' 1 (Some (gps_block 12 ''N'' 22 ''E''))]"

definition photo :: "string \<Rightarrow> int \<Rightarrow> rat \<Rightarrow> rat \<Rightarrow> bool \<Rightarrow> entry" where
  "photo n day la lo approx =
     \<lparr>filename = n, path = ''images/'' @ n, timestamp = noon day,
      lat = Some (Fin la), lng = Some (Fin lo), approximate = Some approx\<rparr>"

text \<open>The locals after pass 1 and after pass 2 on the album, and the result of the scan.\<close>

definition album_index :: day_index where
  "album_index = [(738886, [(Fin 10, Fin 20), (Fin 12, Fin 22)])]"

definition album_pass1 :: scan_state where
  "album_pass1 =
     \<lparr>geotagged = [photo ''b.jpg'' 1 10 20 False, photo ''d.jpg'' 1 12 22 False],
      no_gps = [base_entry (jpeg ''a.jpg'' 4 None), base_entry (jpeg ''c.jpg'' 5 None)],
      day_locations = album_index, inferred_count = 0, still_missing = 0\<rparr>"

definition album_pass2 :: scan_state where
  "album_pass2 =
     album_pass1\<lparr>geotagged := geotagged album_pass1 @ [photo ''a.jpg'' 4 11 21 True],
                 inferred_count := 1, still_missing := 1\<rparr>"

definition album_result :: scan_result where
  "album_result =
     \<lparr>photos = [photo ''b.jpg'' 1 10 20 False, photo ''d.jpg'' 1 12 22 False,
                photo ''a.jpg'' 4 11 21 True],
      exact_gps = 2, inferred = 1, unresolved = 1\<rparr>"

text \<open>
  Two days inserted into the index in the order 5 January, 1 January, and a pending photo
  of 3 January, at distance 2 from both.
\<close>

definition trip :: "image_file list" where
  "trip =
     [jpeg ''a.jpg'' 5 (Some (gps_block 10 ''N'' 20 ''E'')),
      jpeg ''b.jpg'' 1 (Some (gps_block 12 ''N'' 22 ''E'')),
      jpeg ''c.jpg'' 3 None]"

definition trip_pass1 :: scan_state where
  "trip_pass1 =
     \<lparr>geotagged = [photo ''a.jpg'' 5 10 20 False, photo ''b.jpg'' 1 12 22 False],
      no_gps = [base_entry (jpeg ''c.jpg'' 3 None)],
      day_locations = [(738890, [(Fin 10, Fin 20)]), (738886, [(Fin 12, Fin 22)])],
      inferred_count = 0, still_missing = 0\<rparr>"

text \<open>A file with coordinates and no timestamp, and locals with one indexed day.\<close>

definition undated :: image_file where
  "undated =
     \<lparr>file_name = ''a.jpg'', file_path = ''images/a.jpg'', is_heic = False,
      GPSInfo = Some (gps_block 10 ''N'' 20 ''E''), date_taken = None, converted = None\<rparr>"

definition one_day :: scan_state where
  "one_day =
     \<lparr>geotagged = [photo ''a.jpg'' 1 10 20 False], no_gps = [],
      day_locations = [(738886, [(Fin 10, Fin 20)])], inferred_count = 0, still_missing = 0\<rparr>"

section \<open>Properties of coordinate construction\<close>

lemma py_bind_Inr [simp]: "py_bind (Inr v) f = f v"
  by (simp add: py_bind_def)

lemma py_bind_Inl [simp]: "py_bind (Inl e) f = Inl e"
  by (simp add: py_bind_def)

lemma py_bind_eq_Inr: "py_bind r f = Inr y \<longleftrightarrow> (\<exists>v. r = Inr v \<and> f v = Inr y)"
  by (cases r) simp_all

lemma py_truediv_const [simp]:
  "py_truediv x (Fin 60) = Inr (fdiv x (Fin 60))"
  "py_truediv x (Fin 3600) = Inr (fdiv x (Fin 3600))"
  by (simp_all add: py_truediv_def)

lemma dms_to_decimal_triple:
  assumes "py_float env a = Inr degrees" "py_float env b = Inr minutes"
    and "py_float env c = Inr seconds"
  shows "dms_to_decimal env (PyTuple [a, b, c]) ref =
     Inr (py_round
       (let v = py_add (py_add degrees (fdiv minutes (Fin 60))) (fdiv seconds (Fin 3600))
        in if ref = PyStr ''S'' \<or> ref = PyStr ''W'' then py_neg v else v) 6)"
  using assms by (simp add: dms_to_decimal_def Let_def)

lemma dms_40_26_46:
  "dms_to_decimal env (PyTuple [PyInt 40, PyInt 26, PyInt 46]) (PyStr ''N'') =
     Inr (fl (40446111 / 1000000))"
  by code_simp

lemma dms_73_59_11:
  "dms_to_decimal env (PyTuple [PyInt 73, PyInt 59, PyInt 11]) (PyStr ''W'') =
     Inr (fl (- 73986389 / 1000000))"
  by code_simp

text \<open>
  Rounding to the nearest integer, ties to even, is odd and stays within one half; so
  \<open>round\<close> commutes with negation, and it returns the float of a decimal with the given
  number of places that is nearest to the exact value.
\<close>

lemma round_half_even_of_int [simp]: "round_half_even (of_int n) = n"
  by (simp add: round_half_even_def)

lemma round_half_even_zero [simp]: "round_half_even 0 = 0"
  using round_half_even_of_int [of 0] by simp

lemma round_half_even_nearest: "\<bar>x - of_int (round_half_even x)\<bar> \<le> 1 / 2"
proof -
  define d where "d = x - of_int \<lfloor>x\<rfloor>"
  have "0 \<le> d" "d < 1" unfolding d_def by linarith+
  moreover have "x - of_int (\<lfloor>x\<rfloor> + 1) = d - 1" by (simp add: d_def)
  ultimately show ?thesis
    unfolding round_half_even_def Let_def d_def [symmetric]
    by (auto simp only: abs_if split: if_splits)
qed

lemma round_half_even_minus: "round_half_even (- x) = - round_half_even x"
proof (cases "x \<in> \<int>")
  case True
  then obtain n where "x = of_int n" by (auto elim: Ints_cases)
  then have "- x = of_int (- n)" by simp
  then show ?thesis using \<open>x = of_int n\<close> by (simp only: round_half_even_of_int)
next
  case False
  have ne: "x \<noteq> of_int \<lfloor>x\<rfloor>"
  proof
    assume "x = of_int \<lfloor>x\<rfloor>"
    then have "x \<in> \<int>" by (metis Ints_of_int)
    with False show False by simp
  qed
  then have f: "\<lfloor>- x\<rfloor> = - \<lfloor>x\<rfloor> - 1"
    by (simp add: floor_minus ceiling_altdef)
  define d where "d = x - of_int \<lfloor>x\<rfloor>"
  from ne have "d \<noteq> 0" by (simp add: d_def)
  moreover have "0 \<le> d" "d < 1" unfolding d_def by linarith+
  ultimately have d: "0 < d" "d < 1" by simp_all
  have d': "- x - of_int (- \<lfloor>x\<rfloor> - 1) = 1 - d" by (simp add: d_def)
  show ?thesis
    unfolding round_half_even_def Let_def f d' d_def [symmetric]
    using d by auto
qed

lemma fl_minus: "x \<noteq> 0 \<Longrightarrow> fl (- x) = py_neg (fl x)"
  by (auto simp add: fl_def Let_def)

lemma py_round_neg: "py_round (py_neg x) n = py_neg (py_round x n)"
proof (cases x)
  case (Fin r)
  show ?thesis
  proof (cases "r = 0")
    case True
    with Fin show ?thesis by (simp add: py_round_def signed_zero_def)
  next
    case False
    let ?q = "round_half_even (r * 10 ^ n)"
    have q: "round_half_even (- r * 10 ^ n) = - ?q"
      using round_half_even_minus [of "r * 10 ^ n"] by simp
    show ?thesis
    proof (cases "?q = 0")
      case True
      with Fin False q show ?thesis by (auto simp add: py_round_def signed_zero_def Let_def)
    next
      case nz: False
      then have "(of_int ?q :: rat) / 10 ^ n \<noteq> 0" by simp
      from fl_minus [OF this] Fin False q nz show ?thesis
        by (simp add: py_round_def Let_def)
    qed
  qed
qed (simp_all add: py_round_def signed_zero_def)

lemma dms_to_decimal_south:
  assumes "dms_to_decimal env dms (PyStr ''N'') = Inr v"
  shows "dms_to_decimal env dms (PyStr ''S'') = Inr (py_neg v) \<and>
    dms_to_decimal env dms (PyStr ''W'') = Inr (py_neg v) \<and>
    dms_to_decimal env dms (PyStr ''E'') = Inr v"
  using assms
  by (auto simp add: dms_to_decimal_def py_bind_eq_Inr py_round_neg Let_def)

lemma py_round_decimal:
  "\<exists>q. \<bar>r * 10 ^ n - of_int q\<bar> \<le> 1 / 2 \<and>
     (py_round (Fin r) n = fl (of_int q / 10 ^ n) \<or> q = 0 \<and> py_round (Fin r) n = NegZero)"
proof -
  let ?q = "round_half_even (r * 10 ^ n)"
  have "\<bar>r * 10 ^ n - of_int ?q\<bar> \<le> 1 / 2" by (rule round_half_even_nearest)
  moreover have "py_round (Fin r) n = fl (of_int ?q / 10 ^ n) \<or>
      ?q = 0 \<and> py_round (Fin r) n = NegZero"
    by (simp add: py_round_def Let_def signed_zero_def fl_def)
  ultimately show ?thesis by blast
qed

text \<open>
  C4.  For a DMS triple whose components \<open>float()\<close> reads as \<open>degrees\<close>, \<open>minutes\<close> and \<open>seconds\<close>,
  \<open>dms_to_decimal\<close> returns \<open>degrees + minutes / 60 + seconds / 3600\<close> in float arithmetic,
  negated exactly when the reference is \<open>S\<close> or \<open>W\<close>, rounded to 6 decimals.  The result for
  \<open>S\<close> and \<open>W\<close> is the negation of the result for \<open>N\<close> and \<open>E\<close>, and rounding a finite value to 6
  decimals gives the float of a 6-place decimal at most half a unit of the sixth place away.
  The triple (40, 26, 46) with \<open>N\<close> gives the float 40.446111 and (73, 59, 11) with \<open>W\<close>
  gives -73.986389.
\<close>

theorem dms_to_decimal_formula:
  "(py_float env a = Inr degrees \<and> py_float env b = Inr minutes \<and> py_float env c = Inr seconds \<longrightarrow>
      dms_to_decimal env (PyTuple [a, b, c]) ref =
        Inr (py_round
          (let v = py_add (py_add degrees (fdiv minutes (Fin 60))) (fdiv seconds (Fin 3600))
           in if ref = PyStr ''S'' \<or> ref = PyStr ''W'' then py_neg v else v) 6)) \<and>
   (dms_to_decimal env dms (PyStr ''N'') = Inr v \<longrightarrow>
      dms_to_decimal env dms (PyStr ''E'') = Inr v \<and>
      dms_to_decimal env dms (PyStr ''S'') = Inr (py_neg v) \<and>
      dms_to_decimal env dms (PyStr ''W'') = Inr (py_neg v)) \<and>
   (\<exists>q. \<bar>r * 10 ^ 6 - of_int q\<bar> \<le> 1 / 2 \<and>
      (py_round (Fin r) 6 = fl (of_int q / 10 ^ 6) \<or> q = 0 \<and> py_round (Fin r) 6 = NegZero)) \<and>
   dms_to_decimal env (PyTuple [PyInt 40, PyInt 26, PyInt 46]) (PyStr ''N'') =
     Inr (fl (40446111 / 1000000)) \<and>
   dms_to_decimal env (PyTuple [PyInt 73, PyInt 59, PyInt 11]) (PyStr ''W'') =
     Inr (fl (- 73986389 / 1000000))"
  using dms_to_decimal_triple [of env a degrees b minutes c seconds ref]
    dms_to_decimal_south [of env dms v] py_round_decimal [of r 6]
    dms_40_26_46 [of env] dms_73_59_11 [of env]
  by blast

theorem dms_to_decimal_formula_witness:
  "py_float utc (PyInt 1) = Inr (Fin 1) \<and> py_float utc (PyFloat (Fin 30)) = Inr (Fin 30) \<and>
   py_float utc (PyInt 0) = Inr (Fin 0) \<and>
   dms_to_decimal utc (PyTuple [PyInt 1, PyFloat (Fin 30), PyInt 0]) (PyStr ''S'') =
     Inr (Fin (- 3 / 2)) \<and>
   dms_to_decimal utc (PyTuple [PyInt 1, PyFloat (Fin 30), PyInt 0]) (PyStr ''E'') =
     Inr (Fin (3 / 2)) \<and>
   dms_to_decimal utc (PyTuple [PyInt 40, PyInt 26, PyInt 46]) (PyStr ''N'') =
     Inr (fl (40446111 / 1000000)) \<and>
   dms_to_decimal utc (PyTuple [PyInt 40, PyInt 26, PyInt 46]) (PyStr ''S'') =
     Inr (py_neg (fl (40446111 / 1000000)))"
proof -
  have a: "py_float utc (PyInt 1) = Inr (Fin 1)" by code_simp
  have b: "py_float utc (PyFloat (Fin 30)) = Inr (Fin 30)" by simp
  have c: "py_float utc (PyInt 0) = Inr (Fin 0)" by code_simp
  have s: "py_round
       (let v = py_add (py_add (Fin 1) (fdiv (Fin 30) (Fin 60))) (fdiv (Fin 0) (Fin 3600))
        in if PyStr ''S'' = PyStr ''S'' \<or> PyStr ''S'' = PyStr ''W'' then py_neg v else v) 6 =
     Fin (- 3 / 2)"
    by code_simp
  have e: "py_round
       (let v = py_add (py_add (Fin 1) (fdiv (Fin 30) (Fin 60))) (fdiv (Fin 0) (Fin 3600))
        in if PyStr ''E'' = PyStr ''S'' \<or> PyStr ''E'' = PyStr ''W'' then py_neg v else v) 6 =
     Fin (3 / 2)"
    by code_simp
  note w = dms_to_decimal_formula [of utc "PyInt 1" "Fin 1" "PyFloat (Fin 30)" "Fin 30" "PyInt 0"
      "Fin 0" _ "PyTuple [PyInt 40, PyInt 26, PyInt 46]" "fl (40446111 / 1000000)"]
  from w [of "PyStr ''S''"] a b c s
  have "dms_to_decimal utc (PyTuple [PyInt 1, PyFloat (Fin 30), PyInt 0]) (PyStr ''S'') =
     Inr (Fin (- 3 / 2))"
    by (simp only:)
  moreover from w [of "PyStr ''E''"] a b c e
  have "dms_to_decimal utc (PyTuple [PyInt 1, PyFloat (Fin 30), PyInt 0]) (PyStr ''E'') =
     Inr (Fin (3 / 2))"
    by (simp only:)
  moreover from w [of "PyStr ''N''"]
  have "dms_to_decimal utc (PyTuple [PyInt 40, PyInt 26, PyInt 46]) (PyStr ''N'') =
       Inr (fl (40446111 / 1000000)) \<and>
     dms_to_decimal utc (PyTuple [PyInt 40, PyInt 26, PyInt 46]) (PyStr ''S'') =
       Inr (py_neg (fl (40446111 / 1000000)))"
    by blast
  ultimately show ?thesis using a b c by blast
qed

lemma float_type_error_take3:
  assumes "float_type_error env (take 3 xs)"
  shows "dms_to_decimal env (PyTuple xs) ref = Inl TypeError"
proof (cases xs)
  case Nil
  with assms show ?thesis by simp
next
  case (Cons a as)
  show ?thesis
  proof (cases "py_float env a")
    case (Inl e)
    with assms Cons show ?thesis by (simp add: dms_to_decimal_def)
  next
    case ra: (Inr va)
    show ?thesis
    proof (cases as)
      case Nil
      with assms Cons ra show ?thesis by simp
    next
      case as: (Cons b bs)
      show ?thesis
      proof (cases "py_float env b")
        case (Inl e)
        with assms Cons ra as show ?thesis by (simp add: dms_to_decimal_def)
      next
        case rb: (Inr vb)
        show ?thesis
        proof (cases bs)
          case Nil
          with assms Cons ra as rb show ?thesis by simp
        next
          case bs: (Cons c cs)
          show ?thesis
          proof (cases "py_float env c")
            case (Inl e)
            with assms Cons ra as rb bs show ?thesis by (simp add: dms_to_decimal_def)
          next
            case (Inr vc)
            with assms Cons ra as rb bs show ?thesis by simp
          qed
        qed
      qed
    qed
  qed
qed

lemma dms_type_error_raises:
  "dms_type_error env dms \<Longrightarrow> dms_to_decimal env dms ref = Inl TypeError"
proof (cases dms)
  case (PyTuple xs)
  assume "dms_type_error env dms"
  with PyTuple show ?thesis by (simp add: float_type_error_take3)
qed (simp_all add: dms_to_decimal_def)

lemma dms_to_decimal_ref:
  "ref \<noteq> PyStr ''S'' \<Longrightarrow> ref \<noteq> PyStr ''W'' \<Longrightarrow>
   dms_to_decimal env dms ref = dms_to_decimal env dms (PyStr ''N'')"
  by (simp add: dms_to_decimal_def)

lemma py_dict_get_simps [simp]:
  "map_of d k = None \<Longrightarrow> py_dict_get d k = Inl KeyError"
  "map_of d k = Some v \<Longrightarrow> py_dict_get d k = Inr v"
  by (simp_all add: py_dict_get_def)

lemma get_gps_info_empty:
  "get_gps_info env None = Inr (None, None) \<and> get_gps_info env (Some []) = Inr (None, None)"
  by (simp add: get_gps_info_def)

lemma get_gps_info_lat_absent:
  assumes "map_of gps ''GPSLatitude'' = None \<or> map_of gps ''GPSLatitudeRef'' = None \<or>
      (\<exists>la. map_of gps ''GPSLatitude'' = Some la \<and> dms_type_error env la)"
  shows "get_gps_info env (Some gps) = Inr (None, None)"
proof (cases "map_of gps ''GPSLatitude''")
  case None
  then show ?thesis by (simp add: get_gps_info_def)
next
  case la: (Some la)
  show ?thesis
  proof (cases "map_of gps ''GPSLatitudeRef''")
    case None
    with la show ?thesis by (simp add: get_gps_info_def)
  next
    case (Some laref)
    with la assms have "dms_type_error env la" by simp
    then have "dms_to_decimal env la laref = Inl TypeError" by (rule dms_type_error_raises)
    with la Some show ?thesis by (simp add: get_gps_info_def)
  qed
qed

lemma get_gps_info_lng_absent:
  assumes "map_of gps ''GPSLatitude'' = Some la" "map_of gps ''GPSLatitudeRef'' = Some laref"
    and "dms_to_decimal env la laref = Inr x"
    and "map_of gps ''GPSLongitude'' = None \<or> map_of gps ''GPSLongitudeRef'' = None \<or>
      (\<exists>lo. map_of gps ''GPSLongitude'' = Some lo \<and> dms_type_error env lo)"
  shows "get_gps_info env (Some gps) = Inr (None, None)"
proof (cases "map_of gps ''GPSLongitude''")
  case None
  with assms(1-3) show ?thesis by (simp add: get_gps_info_def)
next
  case lo: (Some lo)
  show ?thesis
  proof (cases "map_of gps ''GPSLongitudeRef''")
    case None
    with lo assms(1-3) show ?thesis by (simp add: get_gps_info_def)
  next
    case (Some loref)
    with lo assms(4) have "dms_type_error env lo" by simp
    then have "dms_to_decimal env lo loref = Inl TypeError" by (rule dms_type_error_raises)
    with lo Some assms(1-3) show ?thesis by (simp add: get_gps_info_def)
  qed
qed

lemma gps_block_10_20:
  "get_gps_info utc (Some (gps_block 10 ''N'' 20 ''E'')) = Inr (Some (Fin 10), Some (Fin 20))"
  by code_simp

text \<open>
  A latitude of two components and a component that is a string which \<open>float()\<close> rejects:
  the exceptions are not among those that \<open>get_gps_info\<close> catches.
\<close>

lemma get_gps_info_short_tuple:
  "get_gps_info utc
     (Some [(''GPSLatitude'', PyTuple [PyInt 10, PyInt 0]), (''GPSLatitudeRef'', PyStr ''N''),
            (''GPSLongitude'', PyTuple [PyInt 20, PyInt 0, PyInt 0]),
            (''GPSLongitudeRef'', PyStr ''E'')]) = Inl IndexError"
  by code_simp

lemma get_gps_info_text_component:
  "get_gps_info utc
     (Some [(''GPSLatitude'', PyTuple [PyInt 10, PyStr ''abc'', PyInt 0]),
            (''GPSLatitudeRef'', PyStr ''N''),
            (''GPSLongitude'', PyTuple [PyInt 20, PyInt 0, PyInt 0]),
            (''GPSLongitudeRef'', PyStr ''E'')]) = Inl ValueError"
  by code_simp

text \<open>
  C3, as stated, fails: with the unrecognized reference \<open>X\<close> for the latitude a coordinate is
  produced, the same as for \<open>N\<close>.
\<close>

theorem get_gps_info_unrecognized_ref:
  "get_gps_info utc (Some (gps_block 10 ''X'' 20 ''E'')) = Inr (Some (Fin 10), Some (Fin 20))"
  by code_simp

text \<open>
  C3, amended.  \<open>get_gps_info\<close> returns no coordinate, without raising, when the GPS block is
  absent or empty, when the latitude or its reference is missing or the latitude has a
  non-numeric type, and, the latitude being constructed, when the longitude or its reference
  is missing or the longitude has a non-numeric type.  A reference other than \<open>S\<close> and \<open>W\<close>
  does not make the construction fail: it is treated as \<open>N\<close> is.
\<close>

theorem get_gps_info_absent:
  "get_gps_info env None = Inr (None, None) \<and>
   get_gps_info env (Some []) = Inr (None, None) \<and>
   (map_of gps ''GPSLatitude'' = None \<or> map_of gps ''GPSLatitudeRef'' = None \<or>
      (\<exists>la. map_of gps ''GPSLatitude'' = Some la \<and> dms_type_error env la)
    \<longrightarrow> get_gps_info env (Some gps) = Inr (None, None)) \<and>
   ((\<exists>la laref x. map_of gps ''GPSLatitude'' = Some la \<and>
        map_of gps ''GPSLatitudeRef'' = Some laref \<and> dms_to_decimal env la laref = Inr x) \<and>
    (map_of gps ''GPSLongitude'' = None \<or> map_of gps ''GPSLongitudeRef'' = None \<or>
      (\<exists>lo. map_of gps ''GPSLongitude'' = Some lo \<and> dms_type_error env lo))
    \<longrightarrow> get_gps_info env (Some gps) = Inr (None, None)) \<and>
   (ref \<noteq> PyStr ''S'' \<and> ref \<noteq> PyStr ''W''
    \<longrightarrow> dms_to_decimal env dms ref = dms_to_decimal env dms (PyStr ''N''))"
  using get_gps_info_empty [of env] get_gps_info_lat_absent [of gps env]
    get_gps_info_lng_absent [of gps _ _ env] dms_to_decimal_ref [of ref env dms]
  by blast

theorem get_gps_info_absent_witness:
  "map_of [(''GPSLatitude'', PyTuple [PyInt 10, PyInt 0, PyInt 0])] ''GPSLatitudeRef'' = None \<and>
   get_gps_info utc (Some [(''GPSLatitude'', PyTuple [PyInt 10, PyInt 0, PyInt 0])]) =
     Inr (None, None) \<and>
   map_of [(''GPSLatitude'', PyTuple [PyInt 10, PyNone, PyInt 0]), (''GPSLatitudeRef'', PyStr ''N'')]
     ''GPSLatitude'' = Some (PyTuple [PyInt 10, PyNone, PyInt 0]) \<and>
   dms_type_error utc (PyTuple [PyInt 10, PyNone, PyInt 0]) \<and>
   get_gps_info utc
     (Some [(''GPSLatitude'', PyTuple [PyInt 10, PyNone, PyInt 0]), (''GPSLatitudeRef'', PyStr ''N'')]) =
     Inr (None, None) \<and>
   dms_to_decimal utc (PyTuple [PyInt 10, PyInt 0, PyInt 0]) (PyStr ''N'') = Inr (Fin 10) \<and>
   map_of [(''GPSLatitude'', PyTuple [PyInt 10, PyInt 0, PyInt 0]), (''GPSLatitudeRef'', PyStr ''N''),
           (''GPSLongitude'', PyNone)] ''GPSLongitudeRef'' = None \<and>
   get_gps_info utc
     (Some [(''GPSLatitude'', PyTuple [PyInt 10, PyInt 0, PyInt 0]), (''GPSLatitudeRef'', PyStr ''N''),
            (''GPSLongitude'', PyNone)]) = Inr (None, None) \<and>
   PyStr ''X'' \<noteq> PyStr ''S'' \<and> PyStr ''X'' \<noteq> PyStr ''W'' \<and>
   dms_to_decimal utc (PyTuple [PyInt 10, PyInt 0, PyInt 0]) (PyStr ''X'') = Inr (Fin 10)"
proof -
  let ?la = "PyTuple [PyInt 10, PyInt 0, PyInt 0]"
  let ?bad = "PyTuple [PyInt 10, PyNone, PyInt 0]"
  let ?g1 = "[(''GPSLatitude'', ?la)]"
  let ?g2 = "[(''GPSLatitude'', ?bad), (''GPSLatitudeRef'', PyStr ''N'')]"
  let ?g3 = "[(''GPSLatitude'', ?la), (''GPSLatitudeRef'', PyStr ''N''), (''GPSLongitude'', PyNone)]"
  have h1: "map_of ?g1 ''GPSLatitudeRef'' = None" by simp
  have h2: "map_of ?g2 ''GPSLatitude'' = Some ?bad" by simp
  have h2': "dms_type_error utc ?bad" by code_simp
  have h3: "dms_to_decimal utc ?la (PyStr ''N'') = Inr (Fin 10)" by code_simp
  have h3': "map_of ?g3 ''GPSLatitude'' = Some ?la" "map_of ?g3 ''GPSLatitudeRef'' = Some (PyStr ''N'')"
    "map_of ?g3 ''GPSLongitudeRef'' = None"
    by simp_all
  have h4: "PyStr ''X'' \<noteq> PyStr ''S''" "PyStr ''X'' \<noteq> PyStr ''W''" by simp_all
  have c1: "get_gps_info utc (Some ?g1) = Inr (None, None)"
    using get_gps_info_absent [of utc ?g1] h1 by blast
  have c2: "get_gps_info utc (Some ?g2) = Inr (None, None)"
    using get_gps_info_absent [of utc ?g2] h2 h2' by blast
  have c3: "get_gps_info utc (Some ?g3) = Inr (None, None)"
    using get_gps_info_absent [of utc ?g3] h3 h3' by blast
  have c4: "dms_to_decimal utc ?la (PyStr ''X'') = Inr (Fin 10)"
    using get_gps_info_absent [of utc _ "PyStr ''X''" ?la] h4 h3 by simp
  show ?thesis using h1 h2 h2' h3 h3'(3) h4 c1 c2 c3 c4 by blast
qed

section \<open>Pass 1 as a fold\<close>

lemma scan_file_eq:
  "scan_file env st f = (case gps_error env f of Some e \<Rightarrow> Inl e | None \<Rightarrow> Inr (add_file env st f))"
proof (cases "is_heic f \<and> \<not> HEIC_SUPPORT env")
  case True
  then show ?thesis
    by (simp add: scan_file_def gps_error_def add_file_def exact_record_def pending_record_def
        usable_def)
next
  case skip: False
  show ?thesis
  proof (cases "get_gps_info env (GPSInfo f)")
    case (Inl e)
    with skip show ?thesis by (auto simp add: scan_file_def gps_error_def)
  next
    case (Inr r)
    obtain la lo where r: "r = (la, lo)" by (cases r)
    show ?thesis
    proof (cases "usable env f")
      case False
      with skip Inr r show ?thesis
        by (auto simp add: scan_file_def gps_error_def add_file_def exact_record_def
            pending_record_def usable_def split: option.splits)
    next
      case True
      with skip obtain ts where ts: "date_taken f = Some ts"
        by (auto simp add: usable_def)
      from True have conv: "is_heic f \<Longrightarrow> \<exists>p. converted f = Some p"
        by (auto simp add: usable_def)
      show ?thesis
      proof (cases "la \<noteq> None \<and> lo \<noteq> None")
        case True
        then obtain a b where "la = Some a" "lo = Some b" by auto
        with skip Inr r ts \<open>usable env f\<close> conv show ?thesis
          by (auto simp add: scan_file_def gps_error_def add_file_def exact_record_def
              base_entry_def entry_day_def entry_coord_def)
      next
        case False
        with skip Inr r ts \<open>usable env f\<close> conv show ?thesis
          by (cases la; cases lo)
            (auto simp add: scan_file_def gps_error_def add_file_def exact_record_def
              pending_record_def base_entry_def)
      qed
    qed
  qed
qed

lemma pass1_Inr_iff:
  "pass1 env st files = Inr st' \<longleftrightarrow>
     (\<forall>f \<in> set files. gps_error env f = None) \<and> st' = foldl (add_file env) st files"
  by (induction files arbitrary: st) (auto simp add: scan_file_eq split: option.splits)

lemma add_file_fields:
  "geotagged (add_file env st f) =
     geotagged st @ (case exact_record env f of Some e \<Rightarrow> [e] | None \<Rightarrow> [])"
  "no_gps (add_file env st f) =
     no_gps st @ (case exact_record env f of Some e \<Rightarrow> [] | None \<Rightarrow>
        (case pending_record env f of Some e \<Rightarrow> [e] | None \<Rightarrow> []))"
  "day_locations (add_file env st f) =
     (case exact_record env f of
        Some e \<Rightarrow> dd_append (day_locations st) (entry_day env e) (entry_coord e)
      | None \<Rightarrow> day_locations st)"
  "inferred_count (add_file env st f) = inferred_count st"
  "still_missing (add_file env st f) = still_missing st"
  by (simp_all add: add_file_def split: option.splits)

lemma exact_pending_exclusive: "exact_record env f = Some e \<Longrightarrow> pending_record env f = None"
  by (auto simp add: exact_record_def pending_record_def split: if_splits sum.splits option.splits prod.splits)

lemma foldl_add_file:
  "geotagged (foldl (add_file env) st files) =
     geotagged st @ List.map_filter (exact_record env) files \<and>
   no_gps (foldl (add_file env) st files) =
     no_gps st @ List.map_filter (pending_record env) files \<and>
   day_locations (foldl (add_file env) st files) =
     foldl (\<lambda>d e. dd_append d (entry_day env e) (entry_coord e)) (day_locations st)
       (List.map_filter (exact_record env) files) \<and>
   inferred_count (foldl (add_file env) st files) = inferred_count st \<and>
   still_missing (foldl (add_file env) st files) = still_missing st"
proof (induction files arbitrary: st)
  case Nil
  show ?case by simp
next
  case (Cons f files)
  show ?case
    by (cases "exact_record env f")
      (auto simp add: Cons.IH add_file_fields exact_pending_exclusive split: option.splits)
qed

section \<open>The day index\<close>

lemma dd_append_eq:
  "dd_append d k c = AList.update k (case map_of d k of None \<Rightarrow> [c] | Some v \<Rightarrow> v @ [c]) d"
  by (simp add: dd_append_def dd_getitem_def split: option.splits)

lemma dd_append_keys:
  "map fst (dd_append d k c) = (if k \<in> set (map fst d) then map fst d else map fst d @ [k])"
  by (simp only: dd_append_eq update_keys)

lemma dd_append_map_of:
  "map_of (dd_append d k c) k' =
     (if k' = k then Some (case map_of d k of None \<Rightarrow> [c] | Some v \<Rightarrow> v @ [c]) else map_of d k')"
  by (simp add: dd_append_eq update_conv')

lemma set_update_subset: "set (AList.update k v al) \<subseteq> insert (k, v) (set al)"
  by (induction al) auto

lemma index_ok_dd_append: "index_ok d \<Longrightarrow> index_ok (dd_append d k c)"
proof -
  assume ok: "index_ok d"
  let ?v = "case map_of d k of None \<Rightarrow> [c] | Some v \<Rightarrow> v @ [c]"
  have "?v \<noteq> []" by (simp split: option.splits)
  moreover have "snd ` set (dd_append d k c) \<subseteq> insert ?v (snd ` set d)"
    using set_update_subset [of k ?v d] by (auto simp add: dd_append_eq)
  ultimately have "[] \<notin> snd ` set (dd_append d k c)"
    using ok by (auto simp add: index_ok_def)
  moreover have "distinct (map fst (dd_append d k c))"
    using ok by (simp add: index_ok_def dd_append_eq distinct_update)
  ultimately show ?thesis by (simp add: index_ok_def)
qed

lemma index_ok_foldl:
  "index_ok d \<Longrightarrow> index_ok (foldl (\<lambda>d e. dd_append d (entry_day env e) (entry_coord e)) d es)"
  by (induction es arbitrary: d) (simp_all add: index_ok_dd_append)

lemma index_ok_index_of: "index_ok (index_of env es)"
  unfolding index_of_def by (rule index_ok_foldl) (simp add: index_ok_def)

lemma foldl_dd_append_map_of:
  "map_of (foldl (\<lambda>d e. dd_append d (entry_day env e) (entry_coord e)) d es) k =
     (let new = map entry_coord (filter (\<lambda>e. entry_day env e = k) es)
      in case map_of d k of
           None \<Rightarrow> if new = [] then None else Some new
         | Some v \<Rightarrow> Some (v @ new))"
proof (induction es arbitrary: d)
  case Nil
  show ?case by (simp split: option.splits)
next
  case (Cons e es)
  show ?case
    by (simp add: Cons.IH dd_append_map_of Let_def split: option.splits)
qed

lemma index_of_map_of:
  "map_of (index_of env es) k =
     (let new = map entry_coord (filter (\<lambda>e. entry_day env e = k) es)
      in if new = [] then None else Some new)"
  by (simp add: index_of_def foldl_dd_append_map_of)

lemma foldl_dd_append_keys:
  "map fst (foldl (\<lambda>d e. dd_append d (entry_day env e) (entry_coord e)) d es) =
     map fst d @ filter (\<lambda>k. k \<notin> set (map fst d)) (first_occurrences (map (entry_day env) es))"
proof (induction es arbitrary: d)
  case Nil
  show ?case by simp
next
  case (Cons e es)
  have eq: "filter (\<lambda>k. k \<notin> fst ` set d \<and> k \<noteq> entry_day env e) xs =
      filter (\<lambda>k. k \<notin> fst ` set d) xs" if "entry_day env e \<in> fst ` set d" for xs
    using that by (intro filter_cong) auto
  show ?case
    by (auto simp add: Cons.IH dd_append_keys eq intro!: filter_cong)
qed

lemma index_of_keys:
  "map fst (index_of env es) = first_occurrences (map (entry_day env) es)"
  by (simp add: index_of_def foldl_dd_append_keys)

lemma nearest_day_append:
  "nearest_day pd (xs @ ys) best = nearest_day pd ys (nearest_day pd xs best)"
  by (induction xs arbitrary: best) (simp_all add: Let_def)

lemma nearest_day_first_min:
  "ds \<noteq> [] \<Longrightarrow>
   \<exists>ys d zs. ds = ys @ d # zs \<and> nearest_day pd ds None = Some (d, \<bar>d - pd\<bar>) \<and>
     (\<forall>k \<in> set ys. \<bar>d - pd\<bar> < \<bar>k - pd\<bar>) \<and> (\<forall>k \<in> set zs. \<bar>d - pd\<bar> \<le> \<bar>k - pd\<bar>)"
proof (induction ds rule: rev_induct)
  case Nil
  then show ?case by simp
next
  case (snoc x xs)
  show ?case
  proof (cases "xs = []")
    case True
    have "[x] = [] @ x # []" by simp
    then show ?thesis using True by (intro exI [of _ "[]"] exI [of _ x]) simp
  next
    case False
    with snoc.IH obtain ys d zs where xs: "xs = ys @ d # zs"
      and best: "nearest_day pd xs None = Some (d, \<bar>d - pd\<bar>)"
      and before: "\<forall>k \<in> set ys. \<bar>d - pd\<bar> < \<bar>k - pd\<bar>"
      and after: "\<forall>k \<in> set zs. \<bar>d - pd\<bar> \<le> \<bar>k - pd\<bar>"
      by blast
    show ?thesis
    proof (cases "\<bar>x - pd\<bar> < \<bar>d - pd\<bar>")
      case True
      have "nearest_day pd (xs @ [x]) None = Some (x, \<bar>x - pd\<bar>)"
        using best True by (simp add: nearest_day_append)
      moreover have "\<forall>k \<in> set xs. \<bar>x - pd\<bar> < \<bar>k - pd\<bar>"
        using True before after xs by fastforce
      ultimately show ?thesis
        by (intro exI [of _ xs] exI [of _ x] exI [of _ "[]"]) simp
    next
      case False
      have "nearest_day pd (xs @ [x]) None = Some (d, \<bar>d - pd\<bar>)"
        using best False by (simp add: nearest_day_append)
      moreover have "\<forall>k \<in> set (zs @ [x]). \<bar>d - pd\<bar> \<le> \<bar>k - pd\<bar>"
        using False after by auto
      ultimately show ?thesis
        using xs before by (intro exI [of _ ys] exI [of _ d] exI [of _ "zs @ [x]"]) simp
    qed
  qed
qed

lemma nearest_day_Some:
  assumes "nearest_day pd ds None = Some (d, delta)"
  shows "d \<in> set ds \<and> delta = \<bar>d - pd\<bar> \<and> (\<forall>k \<in> set ds. delta \<le> \<bar>k - pd\<bar>)"
proof -
  from assms have "ds \<noteq> []" by (cases ds) auto
  from nearest_day_first_min [OF this, of pd] assms show ?thesis by fastforce
qed

lemma nearest_day_None: "nearest_day pd ds None = None \<longleftrightarrow> ds = []"
  using nearest_day_first_min [of ds pd] by (cases ds) auto

section \<open>Inference and pass 2\<close>

lemma rounded_mean_eq:
  "rounded_mean xs =
     (if xs = [] then Inl ZeroDivisionError
      else Inr (py_round (fdiv (py_sum xs) (fl (of_nat (length xs)))) 6))"
  by (simp add: rounded_mean_def py_truediv_len_def)

lemma dd_getitem_present: "map_of dl k = Some v \<Longrightarrow> dd_getitem dl k = (v, dl)"
  by (simp add: dd_getitem_def)

lemma infer_location_eq:
  "infer_location env ts dl =
     (case nearest_day (local_date env ts) (map fst dl) None of
        None \<Rightarrow> Inr ((None, None, None), dl)
      | Some (d, delta) \<Rightarrow>
          if delta > 3 then Inr ((None, None, None), dl)
          else
            py_bind (rounded_mean (map fst (the (map_of dl d)))) (\<lambda>a.
            py_bind (rounded_mean (map snd (the (map_of dl d)))) (\<lambda>b.
              Inr ((Some a, Some b, Some delta), dl))))"
proof (cases "nearest_day (local_date env ts) (map fst dl) None")
  case None
  then show ?thesis by (simp add: infer_location_def)
next
  case (Some best)
  obtain d delta where best: "best = (d, delta)" by (cases best)
  from Some best have "d \<in> set (map fst dl)" by (auto dest: nearest_day_Some)
  then obtain v where v: "map_of dl d = Some v"
    by (metis map_of_eq_None_iff not_Some_eq set_map)
  from Some have "dl \<noteq> []" by (cases dl) auto
  with Some best v show ?thesis
    by (simp add: infer_location_def dd_getitem_present)
qed

lemma infer_location_keeps_index:
  "infer_location env ts dl = Inr (r, dl') \<Longrightarrow> dl' = dl"
  by (auto simp add: infer_location_eq py_bind_eq_Inr split: option.splits if_splits)

lemma infer_location_total:
  assumes "[] \<notin> snd ` set dl"
  shows "\<exists>r. infer_location env ts dl = Inr (r, dl)"
proof (cases "nearest_day (local_date env ts) (map fst dl) None")
  case None
  then show ?thesis by (simp add: infer_location_eq)
next
  case (Some best)
  obtain d delta where best: "best = (d, delta)" by (cases best)
  from Some best have "d \<in> set (map fst dl)" by (auto dest: nearest_day_Some)
  then obtain v where v: "map_of dl d = Some v"
    by (metis map_of_eq_None_iff not_Some_eq set_map)
  then have "(d, v) \<in> set dl" by (rule map_of_SomeD)
  with assms have "v \<noteq> []" by force
  with Some best v show ?thesis
    by (simp add: infer_location_eq rounded_mean_eq)
qed

lemma infer_entry_eq:
  "infer_entry env st e =
     (case infer_location env (timestamp e) (day_locations st) of
        Inl err \<Rightarrow> Inl err
      | Inr _ \<Rightarrow> Inr (add_inferred env st e))"
proof (cases "infer_location env (timestamp e) (day_locations st)")
  case (Inl err)
  then show ?thesis by (simp add: infer_entry_def)
next
  case (Inr r)
  obtain la lo dd dl' where r: "r = ((la, lo, dd), dl')" by (cases r) auto
  with Inr have "dl' = day_locations st" by (auto dest: infer_location_keeps_index)
  with Inr r show ?thesis
    by (cases la) (simp_all add: infer_entry_def add_inferred_def inferred_record_def)
qed

lemma add_inferred_fields:
  "day_locations (add_inferred env st e) = day_locations st"
  "no_gps (add_inferred env st e) = no_gps st"
  "geotagged (add_inferred env st e) =
     geotagged st @ (case inferred_record env (day_locations st) e of Some e' \<Rightarrow> [e'] | None \<Rightarrow> [])"
  "inferred_count (add_inferred env st e) =
     inferred_count st + (case inferred_record env (day_locations st) e of Some e' \<Rightarrow> 1 | None \<Rightarrow> 0)"
  "still_missing (add_inferred env st e) =
     still_missing st + (case inferred_record env (day_locations st) e of Some e' \<Rightarrow> 0 | None \<Rightarrow> 1)"
  by (simp_all add: add_inferred_def split: option.splits)

lemma foldl_add_inferred:
  "day_locations (foldl (add_inferred env) st es) = day_locations st \<and>
   no_gps (foldl (add_inferred env) st es) = no_gps st \<and>
   geotagged (foldl (add_inferred env) st es) =
     geotagged st @ List.map_filter (inferred_record env (day_locations st)) es \<and>
   inferred_count (foldl (add_inferred env) st es) =
     inferred_count st + int (length (List.map_filter (inferred_record env (day_locations st)) es)) \<and>
   still_missing (foldl (add_inferred env) st es) =
     still_missing st +
       int (length (filter (\<lambda>e. inferred_record env (day_locations st) e = None) es))"
proof (induction es arbitrary: st)
  case Nil
  show ?case by simp
next
  case (Cons e es)
  show ?case
    by (cases "inferred_record env (day_locations st) e")
      (simp_all add: Cons.IH add_inferred_fields)
qed

lemma pass2_Inr_iff:
  "pass2 env st es = Inr st' \<longleftrightarrow>
     (\<forall>e \<in> set es. \<exists>r. infer_location env (timestamp e) (day_locations st) = Inr r) \<and>
     st' = foldl (add_inferred env) st es"
proof (induction es arbitrary: st)
  case Nil
  show ?case by auto
next
  case (Cons e es)
  show ?case
    by (cases "infer_location env (timestamp e) (day_locations st)")
      (auto simp add: infer_entry_eq Cons.IH add_inferred_fields)
qed

lemma pass2_total:
  "[] \<notin> snd ` set (day_locations st) \<Longrightarrow> pass2 env st es = Inr (foldl (add_inferred env) st es)"
  by (metis infer_location_total pass2_Inr_iff)

lemma pass1_initial:
  assumes "pass1 env initial_state files = Inr st"
  shows "geotagged st = List.map_filter (exact_record env) files"
    and "no_gps st = List.map_filter (pending_record env) files"
    and "day_locations st = index_of env (List.map_filter (exact_record env) files)"
    and "inferred_count st = 0" and "still_missing st = 0"
  using assms foldl_add_file [of env initial_state files]
  by (simp_all add: pass1_Inr_iff initial_state_def index_of_def)

lemma scan_images_Inr_iff:
  "scan_images env files = Inr out \<longleftrightarrow>
     (\<forall>f \<in> set files. gps_error env f = None) \<and> out = spec_result env files"
proof (cases "\<forall>f \<in> set files. gps_error env f = None")
  case False
  then show ?thesis by (auto simp add: scan_images_def py_bind_eq_Inr pass1_Inr_iff)
next
  case True
  define st1 where "st1 = foldl (add_file env) initial_state files"
  have p1: "pass1 env initial_state files = Inr st1"
    using True by (simp add: pass1_Inr_iff st1_def)
  note f1 = pass1_initial [OF p1]
  have "index_ok (day_locations st1)" by (simp add: f1 index_ok_index_of)
  then have "[] \<notin> snd ` set (day_locations st1)" by (simp add: index_ok_def)
  then have p2: "pass2 env st1 (no_gps st1) = Inr (foldl (add_inferred env) st1 (no_gps st1))"
    by (rule pass2_total)
  define st2 where "st2 = foldl (add_inferred env) st1 (no_gps st1)"
  have run: "scan_images env files =
      Inr \<lparr>photos = geotagged st2,
           exact_gps = int (length (geotagged st2)) - inferred_count st2,
           inferred = inferred_count st2, unresolved = still_missing st2\<rparr>"
    using p1 p2 by (simp add: scan_images_def st2_def)
  have "\<lparr>photos = geotagged st2,
         exact_gps = int (length (geotagged st2)) - inferred_count st2,
         inferred = inferred_count st2, unresolved = still_missing st2\<rparr> = spec_result env files"
    using foldl_add_inferred [of env st1 "no_gps st1"]
    by (simp add: st2_def f1 spec_result_def Let_def)
  with run True show ?thesis by auto
qed

section \<open>The claims about the scan\<close>

text \<open>
  The example runs.  In the trip the pending photo gets the coordinate of 5 January, the day
  inserted first, although 1 January is as near.
\<close>

lemma album_pass1_run: "pass1 utc initial_state album = Inr album_pass1"
  by code_simp

lemma album_pass2_run: "pass2 utc album_pass1 (no_gps album_pass1) = Inr album_pass2"
  by code_simp

lemma album_run: "scan_images utc album = Inr album_result"
  by code_simp

lemma trip_pass1_run: "pass1 utc initial_state trip = Inr trip_pass1"
  by code_simp

lemma trip_run:
  "scan_images utc trip =
     Inr \<lparr>photos = [photo ''a.jpg'' 5 10 20 False, photo ''b.jpg'' 1 12 22 False,
                    photo ''c.jpg'' 3 10 20 True],
          exact_gps = 2, inferred = 1, unresolved = 0\<rparr>"
  by code_simp

lemma set_map_filter: "e \<in> set (List.map_filter f xs) \<longleftrightarrow> (\<exists>x \<in> set xs. f x = Some e)"
  by (induction xs) (auto split: option.splits)

lemma exact_record_fields:
  "exact_record env f = Some e \<Longrightarrow> approximate e = Some False \<and> lat e \<noteq> None \<and> lng e \<noteq> None"
  by (auto simp add: exact_record_def split: if_splits sum.splits prod.splits option.splits)

lemma inferred_record_fields:
  "inferred_record env dl e = Some e' \<Longrightarrow> approximate e' = Some True \<and> lat e' \<noteq> None"
  by (auto simp add: inferred_record_def split: sum.splits prod.splits option.splits)

text \<open>
  C2.  On a non-empty list of indexed days the loop of \<open>infer_location\<close> selects a day at the
  least distance from the target, and among the days at that distance the one that comes
  first in the iteration: every day before it is strictly farther, every day after it is at
  least as far.  The iteration order of the index that pass 1 builds is the order in which
  the days were first inserted.  So with days 5 and 1 inserted in this order, target 3
  selects day 5, and with the order 1, 5 it selects day 1.
\<close>

theorem nearest_day_tie_break:
  "(ds \<noteq> [] \<longrightarrow>
     (\<exists>ys d zs. ds = ys @ d # zs \<and> nearest_day pd ds None = Some (d, \<bar>d - pd\<bar>) \<and>
        (\<forall>k \<in> set ys. \<bar>d - pd\<bar> < \<bar>k - pd\<bar>) \<and> (\<forall>k \<in> set zs. \<bar>d - pd\<bar> \<le> \<bar>k - pd\<bar>))) \<and>
   (pass1 env initial_state files = Inr st1 \<longrightarrow>
      map fst (day_locations st1) = first_occurrences (map (entry_day env) (geotagged st1))) \<and>
   nearest_day 3 [5, 1] None = Some (5, 2) \<and> nearest_day 3 [1, 5] None = Some (1, 2)"
proof -
  have "nearest_day 3 [5, 1] None = Some (5, 2) \<and> nearest_day 3 [1, 5] None = Some (1, 2)"
    by code_simp
  moreover have "map fst (day_locations st1) =
      first_occurrences (map (entry_day env) (geotagged st1))"
    if "pass1 env initial_state files = Inr st1"
    using pass1_initial [OF that] by (simp add: index_of_keys)
  ultimately show ?thesis using nearest_day_first_min [of ds pd] by blast
qed

theorem nearest_day_tie_break_witness:
  "[738890, 738886] \<noteq> [] \<and>
   (\<exists>ys d zs. [738890, 738886] = ys @ d # zs \<and>
      nearest_day 738888 [738890, 738886] None = Some (d, \<bar>d - 738888\<bar>) \<and>
      (\<forall>k \<in> set ys. \<bar>d - 738888\<bar> < \<bar>k - 738888\<bar>) \<and>
      (\<forall>k \<in> set zs. \<bar>d - 738888\<bar> \<le> \<bar>k - 738888\<bar>)) \<and>
   nearest_day 738888 [738890, 738886] None = Some (738890, 2) \<and>
   pass1 utc initial_state trip = Inr trip_pass1 \<and>
   map fst (day_locations trip_pass1) =
     first_occurrences (map (entry_day utc) (geotagged trip_pass1)) \<and>
   map fst (day_locations trip_pass1) = [738890, 738886]"
proof -
  have ne: "[738890, 738886] \<noteq> ([] :: int list)" by simp
  have ev: "nearest_day 738888 [738890, 738886] None = Some (738890, 2)" by code_simp
  have keys: "map fst (day_locations trip_pass1) = [738890, 738886]"
    by (simp add: trip_pass1_def)
  from nearest_day_tie_break [of "[738890, 738886]" 738888 utc trip trip_pass1]
    ne trip_pass1_run ev keys
  show ?thesis by blast
qed

text \<open>
  C5.  The day index is not changed by inference: a call of \<open>infer_location\<close> leaves the
  dictionary as it was, and so does the whole of pass 2, which returns whenever pass 1 has
  returned.  After pass 1 every record in \<open>geotagged\<close> is exact, and the coordinates of a day
  in the index are those of the exact records of that day, in order.
\<close>

theorem day_index_frozen:
  "(infer_location env ts dl = Inr (r, dl') \<longrightarrow> dl' = dl) \<and>
   (pass2 env st es = Inr st' \<longrightarrow> day_locations st' = day_locations st) \<and>
   (pass1 env initial_state files = Inr st1 \<longrightarrow>
      (\<exists>st2. pass2 env st1 (no_gps st1) = Inr st2 \<and> day_locations st2 = day_locations st1) \<and>
      (\<forall>e \<in> set (geotagged st1). approximate e = Some False) \<and>
      (\<forall>day coords. map_of (day_locations st1) day = Some coords \<longrightarrow>
         coords = map entry_coord (filter (\<lambda>e. entry_day env e = day) (geotagged st1))))"
proof -
  have a: "dl' = dl" if "infer_location env ts dl = Inr (r, dl')"
    using that by (rule infer_location_keeps_index)
  have b: "day_locations st' = day_locations st" if "pass2 env st es = Inr st'"
    using that foldl_add_inferred [of env st es] by (simp add: pass2_Inr_iff)
  have c: "(\<exists>st2. pass2 env st1 (no_gps st1) = Inr st2 \<and> day_locations st2 = day_locations st1) \<and>
      (\<forall>e \<in> set (geotagged st1). approximate e = Some False) \<and>
      (\<forall>day coords. map_of (day_locations st1) day = Some coords \<longrightarrow>
         coords = map entry_coord (filter (\<lambda>e. entry_day env e = day) (geotagged st1)))"
    if "pass1 env initial_state files = Inr st1"
  proof -
    note f1 = pass1_initial [OF that]
    have "index_ok (day_locations st1)" by (simp add: f1 index_ok_index_of)
    then have "[] \<notin> snd ` set (day_locations st1)" by (simp add: index_ok_def)
    then have "pass2 env st1 (no_gps st1) = Inr (foldl (add_inferred env) st1 (no_gps st1))"
      by (rule pass2_total)
    moreover have "day_locations (foldl (add_inferred env) st1 (no_gps st1)) = day_locations st1"
      using foldl_add_inferred [of env st1 "no_gps st1"] by simp
    ultimately have "\<exists>st2. pass2 env st1 (no_gps st1) = Inr st2 \<and>
        day_locations st2 = day_locations st1"
      by blast
    moreover
    have "\<forall>e \<in> set (geotagged st1). approximate e = Some False"
      by (auto simp add: f1 set_map_filter dest: exact_record_fields)
    moreover have "coords = map entry_coord (filter (\<lambda>e. entry_day env e = day) (geotagged st1))"
      if "map_of (day_locations st1) day = Some coords" for day coords
      using that by (simp add: f1 index_of_map_of Let_def split: if_splits)
    ultimately show ?thesis by blast
  qed
  from a b c show ?thesis by blast
qed

theorem day_index_frozen_witness:
  "infer_location utc (noon 4) album_index = Inr ((Some (Fin 11), Some (Fin 21), Some 3), album_index) \<and>
   pass2 utc album_pass1 (no_gps album_pass1) = Inr album_pass2 \<and>
   day_locations album_pass2 = day_locations album_pass1 \<and>
   pass1 utc initial_state album = Inr album_pass1 \<and>
   photo ''d.jpg'' 1 12 22 False \<in> set (geotagged album_pass1) \<and>
   approximate (photo ''d.jpg'' 1 12 22 False) = Some False \<and>
   map_of (day_locations album_pass1) 738886 = Some [(Fin 10, Fin 20), (Fin 12, Fin 22)] \<and>
   [(Fin 10, Fin 20), (Fin 12, Fin 22)] =
     map entry_coord (filter (\<lambda>e. entry_day utc e = 738886) (geotagged album_pass1))"
proof -
  have a: "infer_location utc (noon 4) album_index =
      Inr ((Some (Fin 11), Some (Fin 21), Some 3), album_index)"
    by code_simp
  have m: "map_of (day_locations album_pass1) 738886 = Some [(Fin 10, Fin 20), (Fin 12, Fin 22)]"
    by (simp add: album_pass1_def album_index_def)
  have e: "photo ''d.jpg'' 1 12 22 False \<in> set (geotagged album_pass1)"
    by (simp add: album_pass1_def)
  from day_index_frozen [of utc "noon 4" album_index "(Some (Fin 11), Some (Fin 21), Some 3)"
      album_index album_pass1 "no_gps album_pass1" album_pass2 album album_pass1]
    a album_pass2_run album_pass1_run m e
  show ?thesis by blast
qed

text \<open>
  C6.  The photos that \<open>scan_images\<close> returns are the exact records of the usable files with a
  coordinate, in input order, followed by the inferred records of the pending files, in input
  order; the former all have \<open>approximate = False\<close>, the latter \<open>approximate = True\<close>.
\<close>

theorem scan_images_order:
  assumes "scan_images env files = Inr out"
  shows "photos out =
       List.map_filter (exact_record env) files @
       List.map_filter
         (inferred_record env (index_of env (List.map_filter (exact_record env) files)))
         (List.map_filter (pending_record env) files) \<and>
     (\<forall>e \<in> set (List.map_filter (exact_record env) files). approximate e = Some False) \<and>
     (\<forall>e \<in> set (List.map_filter
          (inferred_record env (index_of env (List.map_filter (exact_record env) files)))
          (List.map_filter (pending_record env) files)). approximate e = Some True)"
proof -
  from assms have out: "out = spec_result env files" by (simp add: scan_images_Inr_iff)
  let ?exact = "List.map_filter (exact_record env) files"
  let ?approx = "List.map_filter (inferred_record env (index_of env ?exact))
                 (List.map_filter (pending_record env) files)"
  have "photos out = ?exact @ ?approx" by (simp add: out spec_result_def Let_def)
  moreover have "\<forall>e \<in> set ?exact. approximate e = Some False"
    by (auto simp add: set_map_filter dest: exact_record_fields)
  moreover have "\<forall>e \<in> set ?approx. approximate e = Some True"
    by (auto simp only: set_map_filter dest: inferred_record_fields)
  ultimately show ?thesis by blast
qed

theorem scan_images_order_witness:
  "scan_images utc album = Inr album_result \<and>
   photos album_result =
     List.map_filter (exact_record utc) album @
     List.map_filter
       (inferred_record utc (index_of utc (List.map_filter (exact_record utc) album)))
       (List.map_filter (pending_record utc) album) \<and>
   List.map_filter (exact_record utc) album =
     [photo ''b.jpg'' 1 10 20 False, photo ''d.jpg'' 1 12 22 False] \<and>
   List.map_filter
     (inferred_record utc (index_of utc (List.map_filter (exact_record utc) album)))
     (List.map_filter (pending_record utc) album) = [photo ''a.jpg'' 4 11 21 True] \<and>
   map filename (photos album_result) = [''b.jpg'', ''d.jpg'', ''a.jpg''] \<and>
   map approximate (photos album_result) = [Some False, Some False, Some True]"
proof -
  have x: "List.map_filter (exact_record utc) album =
      [photo ''b.jpg'' 1 10 20 False, photo ''d.jpg'' 1 12 22 False]"
    by code_simp
  have "photos album_result =
      [photo ''b.jpg'' 1 10 20 False, photo ''d.jpg'' 1 12 22 False] @ [photo ''a.jpg'' 4 11 21 True]"
    by (simp add: album_result_def)
  with scan_images_order [OF album_run] x
  have y: "List.map_filter
     (inferred_record utc (index_of utc (List.map_filter (exact_record utc) album)))
     (List.map_filter (pending_record utc) album) = [photo ''a.jpg'' 4 11 21 True]"
    by simp
  have "map filename (photos album_result) = [''b.jpg'', ''d.jpg'', ''a.jpg''] \<and>
      map approximate (photos album_result) = [Some False, Some False, Some True]"
    by (simp add: album_result_def photo_def)
  with scan_images_order [OF album_run] album_run x y show ?thesis by blast
qed

text \<open>
  C9.  In the summary, the exact count is the number of returned photos with
  \<open>approximate = False\<close>, the inferred count the number with \<open>approximate = True\<close>, the
  unresolved count the number of pending records for which inference gave nothing; exact
  and inferred add up to the number of returned photos.
\<close>

theorem scan_images_summary:
  assumes "scan_images env files = Inr out"
  shows "exact_gps out = int (length (filter (\<lambda>e. approximate e = Some False) (photos out))) \<and>
     inferred out = int (length (filter (\<lambda>e. approximate e = Some True) (photos out))) \<and>
     unresolved out =
       int (length (filter
         (\<lambda>e. inferred_record env (index_of env (List.map_filter (exact_record env) files)) e = None)
         (List.map_filter (pending_record env) files))) \<and>
     exact_gps out + inferred out = int (length (photos out))"
proof -
  from assms have out: "out = spec_result env files" by (simp add: scan_images_Inr_iff)
  let ?exact = "List.map_filter (exact_record env) files"
  let ?approx = "List.map_filter (inferred_record env (index_of env ?exact))
                 (List.map_filter (pending_record env) files)"
  have e: "\<forall>e \<in> set ?exact. approximate e = Some False"
    by (auto simp add: set_map_filter dest: exact_record_fields)
  have a: "\<forall>e \<in> set ?approx. approximate e = Some True"
    by (auto simp only: set_map_filter dest: inferred_record_fields)
  have "filter (\<lambda>e. approximate e = Some False) ?exact = ?exact"
    "filter (\<lambda>e. approximate e = Some True) ?exact = []"
    using e by (simp_all add: filter_id_conv filter_empty_conv)
  moreover have "filter (\<lambda>e. approximate e = Some True) ?approx = ?approx"
    "filter (\<lambda>e. approximate e = Some False) ?approx = []"
    using a by (simp_all add: filter_id_conv filter_empty_conv)
  ultimately show ?thesis
    by (simp add: out spec_result_def Let_def)
qed

theorem scan_images_summary_witness:
  "scan_images utc album = Inr album_result \<and>
   exact_gps album_result =
     int (length (filter (\<lambda>e. approximate e = Some False) (photos album_result))) \<and>
   inferred album_result =
     int (length (filter (\<lambda>e. approximate e = Some True) (photos album_result))) \<and>
   unresolved album_result =
     int (length (filter
       (\<lambda>e. inferred_record utc (index_of utc (List.map_filter (exact_record utc) album)) e = None)
       (List.map_filter (pending_record utc) album))) \<and>
   exact_gps album_result + inferred album_result = int (length (photos album_result)) \<and>
   exact_gps album_result = 2 \<and> inferred album_result = 1 \<and> unresolved album_result = 1"
proof -
  have "exact_gps album_result = 2 \<and> inferred album_result = 1 \<and> unresolved album_result = 1"
    by (simp add: album_result_def)
  with scan_images_summary [OF album_run] album_run show ?thesis by blast
qed

lemma min_delta_nearest:
  assumes "nearest_day pd (map fst dl) None = Some (d, delta)"
  shows "delta = min_delta pd dl"
proof -
  from nearest_day_Some [OF assms]
  have d: "d \<in> fst ` set dl" and delta: "delta = \<bar>d - pd\<bar>"
    and least: "\<forall>k \<in> fst ` set dl. delta \<le> \<bar>k - pd\<bar>"
    by auto
  have "Min ((\<lambda>day. \<bar>day - pd\<bar>) ` fst ` set dl) = delta"
  proof (rule Min_eqI)
    show "finite ((\<lambda>day. \<bar>day - pd\<bar>) ` fst ` set dl)" by simp
    show "delta \<le> y" if "y \<in> (\<lambda>day. \<bar>day - pd\<bar>) ` fst ` set dl" for y
      using that least by auto
    show "delta \<in> (\<lambda>day. \<bar>day - pd\<bar>) ` fst ` set dl"
      using d delta by blast
  qed
  then show ?thesis by (simp add: min_delta_def)
qed

lemma infer_entry_inferred:
  assumes ok: "index_ok (day_locations st)" and ne: "day_locations st \<noteq> []"
    and near: "min_delta (local_date env (timestamp e)) (day_locations st) \<le> 3"
  shows "\<exists>day coords a b.
     map_of (day_locations st) day = Some coords \<and>
     \<bar>day - local_date env (timestamp e)\<bar> = min_delta (local_date env (timestamp e)) (day_locations st) \<and>
     rounded_mean (map fst coords) = Inr a \<and> rounded_mean (map snd coords) = Inr b \<and>
     infer_entry env st e =
       Inr (st\<lparr>geotagged := geotagged st @ [e\<lparr>lat := Some a, lng := Some b, approximate := Some True\<rparr>],
               inferred_count := inferred_count st + 1\<rparr>)"
proof -
  let ?dl = "day_locations st" and ?pd = "local_date env (timestamp e)"
  from ne have "nearest_day ?pd (map fst ?dl) None \<noteq> None" by (simp add: nearest_day_None)
  then obtain d delta where best: "nearest_day ?pd (map fst ?dl) None = Some (d, delta)" by auto
  from nearest_day_Some [OF best] have d: "d \<in> set (map fst ?dl)" and delta: "delta = \<bar>d - ?pd\<bar>"
    by auto
  from best have md: "delta = min_delta ?pd ?dl" by (rule min_delta_nearest)
  from d obtain v where v: "map_of ?dl d = Some v"
    by (metis map_of_eq_None_iff not_Some_eq set_map)
  then have "(d, v) \<in> set ?dl" by (rule map_of_SomeD)
  with ok have "v \<noteq> []" by (force simp add: index_ok_def)
  then obtain a b where a: "rounded_mean (map fst v) = Inr a" and b: "rounded_mean (map snd v) = Inr b"
    by (simp add: rounded_mean_eq)
  have loc: "infer_location env (timestamp e) ?dl = Inr ((Some a, Some b, Some delta), ?dl)"
    using best md near v a b by (simp add: infer_location_eq)
  then have "infer_entry env st e =
       Inr (st\<lparr>geotagged := geotagged st @ [e\<lparr>lat := Some a, lng := Some b, approximate := Some True\<rparr>],
               inferred_count := inferred_count st + 1\<rparr>)"
    by (simp add: infer_entry_eq add_inferred_def inferred_record_def)
  with v delta md a b show ?thesis by metis
qed

lemma infer_entry_unresolved:
  assumes "day_locations st = [] \<or> 3 < min_delta (local_date env (timestamp e)) (day_locations st)"
  shows "infer_entry env st e = Inr (st\<lparr>still_missing := still_missing st + 1\<rparr>)"
proof -
  let ?dl = "day_locations st" and ?pd = "local_date env (timestamp e)"
  have "infer_location env (timestamp e) ?dl = Inr ((None, None, None), ?dl)"
  proof (cases "nearest_day ?pd (map fst ?dl) None")
    case None
    then show ?thesis by (simp add: infer_location_eq)
  next
    case (Some best)
    obtain d delta where best: "best = (d, delta)" by (cases best)
    with Some have "?dl \<noteq> []" by (auto simp add: nearest_day_None [symmetric])
    moreover from Some best have "delta = min_delta ?pd ?dl" by (auto intro: min_delta_nearest)
    ultimately show ?thesis using assms Some best by (simp add: infer_location_eq)
  qed
  then show ?thesis
    by (simp add: infer_entry_eq add_inferred_def inferred_record_def)
qed

lemma pass2_append:
  "pass2 env st (xs @ ys) = py_bind (pass2 env st xs) (\<lambda>st'. pass2 env st' ys)"
proof (induction xs arbitrary: st)
  case Nil
  show ?case by simp
next
  case (Cons x xs)
  show ?case by (cases "infer_entry env st x") (simp_all add: Cons.IH)
qed

lemma pass_index_ok:
  assumes "pass1 env initial_state files = Inr st1" "pass2 env st1 es = Inr st2"
  shows "index_ok (day_locations st2)"
proof -
  have "day_locations st2 = day_locations st1"
    using assms(2) foldl_add_inferred [of env st1 es] by (simp add: pass2_Inr_iff)
  then show ?thesis using pass1_initial(3) [OF assms(1)] by (simp add: index_ok_index_of)
qed

text \<open>
  C1.  A pending record in pass 2, on an index as pass 1 builds it: if the index is not empty
  and the least distance in days from the record's day to an indexed day is at most 3, the
  record is appended to the output with \<open>approximate = True\<close> and the rounded mean
  coordinate of an indexed day at that distance, and the inferred counter is incremented;
  if the index is empty or the least distance exceeds 3, nothing is appended and the
  unresolved counter is incremented.  Every state that pass 2 meets after pass 1 has such
  an index, and pass 2 applies this step to each pending record in turn.
\<close>

theorem inference_window:
  "(index_ok (day_locations st) \<and> day_locations st \<noteq> [] \<and>
    min_delta (local_date env (timestamp e)) (day_locations st) \<le> 3 \<longrightarrow>
      (\<exists>day coords a b.
         map_of (day_locations st) day = Some coords \<and>
         \<bar>day - local_date env (timestamp e)\<bar> =
           min_delta (local_date env (timestamp e)) (day_locations st) \<and>
         rounded_mean (map fst coords) = Inr a \<and> rounded_mean (map snd coords) = Inr b \<and>
         infer_entry env st e =
           Inr (st\<lparr>geotagged :=
                     geotagged st @ [e\<lparr>lat := Some a, lng := Some b, approximate := Some True\<rparr>],
                   inferred_count := inferred_count st + 1\<rparr>))) \<and>
   (day_locations st = [] \<or>
    3 < min_delta (local_date env (timestamp e)) (day_locations st) \<longrightarrow>
      infer_entry env st e = Inr (st\<lparr>still_missing := still_missing st + 1\<rparr>)) \<and>
   (pass1 env initial_state files = Inr st1 \<and> pass2 env st1 es = Inr st2 \<longrightarrow>
      index_ok (day_locations st2)) \<and>
   pass2 env st (es @ e # es') =
     py_bind (pass2 env st es) (\<lambda>s. py_bind (infer_entry env s e) (\<lambda>s'. pass2 env s' es'))"
  using infer_entry_inferred [of st env e] infer_entry_unresolved [of st env e]
    pass_index_ok [of env files st1 es st2] pass2_append [of env st es "e # es'"]
  by simp

theorem inference_window_witness:
  "index_ok (day_locations one_day) \<and> day_locations one_day \<noteq> [] \<and>
   min_delta (local_date utc (timestamp (base_entry (jpeg ''b.jpg'' 4 None)))) (day_locations one_day) = 3 \<and>
   (\<exists>day coords a b.
      map_of (day_locations one_day) day = Some coords \<and>
      \<bar>day - local_date utc (timestamp (base_entry (jpeg ''b.jpg'' 4 None)))\<bar> =
        min_delta (local_date utc (timestamp (base_entry (jpeg ''b.jpg'' 4 None))))
          (day_locations one_day) \<and>
      rounded_mean (map fst coords) = Inr a \<and> rounded_mean (map snd coords) = Inr b \<and>
      infer_entry utc one_day (base_entry (jpeg ''b.jpg'' 4 None)) =
        Inr (one_day\<lparr>geotagged := geotagged one_day @
               [(base_entry (jpeg ''b.jpg'' 4 None))\<lparr>lat := Some a, lng := Some b,
                  approximate := Some True\<rparr>],
             inferred_count := inferred_count one_day + 1\<rparr>)) \<and>
   infer_entry utc one_day (base_entry (jpeg ''b.jpg'' 4 None)) =
     Inr (one_day\<lparr>geotagged := geotagged one_day @ [photo ''b.jpg'' 4 10 20 True],
                  inferred_count := 1\<rparr>) \<and>
   min_delta (local_date utc (timestamp (base_entry (jpeg ''b.jpg'' 5 None)))) (day_locations one_day) = 4 \<and>
   infer_entry utc one_day (base_entry (jpeg ''b.jpg'' 5 None)) =
     Inr (one_day\<lparr>still_missing := still_missing one_day + 1\<rparr>) \<and>
   pass1 utc initial_state album = Inr album_pass1 \<and>
   pass2 utc album_pass1 (no_gps album_pass1) = Inr album_pass2 \<and>
   index_ok (day_locations album_pass2)"
proof -
  let ?e4 = "base_entry (jpeg ''b.jpg'' 4 None)" and ?e5 = "base_entry (jpeg ''b.jpg'' 5 None)"
  have ok: "index_ok (day_locations one_day)" "day_locations one_day \<noteq> []"
    by (simp_all add: one_day_def index_ok_def)
  have d4: "min_delta (local_date utc (timestamp ?e4)) (day_locations one_day) = 3"
    by (simp add: min_delta_def one_day_def utc_def noon_def base_entry_def jpeg_def)
  have d5: "min_delta (local_date utc (timestamp ?e5)) (day_locations one_day) = 4"
    by (simp add: min_delta_def one_day_def utc_def noon_def base_entry_def jpeg_def)
  have ev: "infer_entry utc one_day ?e4 =
     Inr (one_day\<lparr>geotagged := geotagged one_day @ [photo ''b.jpg'' 4 10 20 True],
                  inferred_count := 1\<rparr>)"
    by code_simp
  note w4 = inference_window [of one_day utc ?e4 album album_pass1 "no_gps album_pass1" album_pass2]
  note w5 = inference_window [of one_day utc ?e5 album album_pass1 "no_gps album_pass1" album_pass2]
  from w4 ok d4 have c4: "\<exists>day coords a b.
      map_of (day_locations one_day) day = Some coords \<and>
      \<bar>day - local_date utc (timestamp ?e4)\<bar> =
        min_delta (local_date utc (timestamp ?e4)) (day_locations one_day) \<and>
      rounded_mean (map fst coords) = Inr a \<and> rounded_mean (map snd coords) = Inr b \<and>
      infer_entry utc one_day ?e4 =
        Inr (one_day\<lparr>geotagged := geotagged one_day @
               [?e4\<lparr>lat := Some a, lng := Some b, approximate := Some True\<rparr>],
             inferred_count := inferred_count one_day + 1\<rparr>)"
    by simp
  from w5 d5 have c5: "infer_entry utc one_day ?e5 =
     Inr (one_day\<lparr>still_missing := still_missing one_day + 1\<rparr>)"
    by simp
  from w4 album_pass1_run album_pass2_run have c6: "index_ok (day_locations album_pass2)"
    by blast
  from ok d4 c4 ev d5 c5 album_pass1_run album_pass2_run c6 show ?thesis by blast
qed

lemma infer_location_same_day:
  assumes ok: "index_ok dl" and v: "map_of dl day = Some coords" and ts: "local_date env ts = day"
  shows "infer_location env ts dl =
     Inr ((Some (py_round (fdiv (py_sum (map fst coords)) (fl (of_nat (length coords)))) 6),
           Some (py_round (fdiv (py_sum (map snd coords)) (fl (of_nat (length coords)))) 6),
           Some 0), dl)"
proof -
  from v have mem: "(day, coords) \<in> set dl" by (rule map_of_SomeD)
  then have ne: "map fst dl \<noteq> []" by auto
  from mem have day: "day \<in> set (map fst dl)" by force
  from nearest_day_first_min [OF ne, of day] obtain ys d zs
    where split: "map fst dl = ys @ d # zs"
      and best: "nearest_day day (map fst dl) None = Some (d, \<bar>d - day\<bar>)"
      and before: "\<forall>k \<in> set ys. \<bar>d - day\<bar> < \<bar>k - day\<bar>"
      and after: "\<forall>k \<in> set zs. \<bar>d - day\<bar> \<le> \<bar>k - day\<bar>"
    by blast
  from day split have "day \<in> set ys \<or> day = d \<or> day \<in> set zs" by auto
  with before after have "d = day" by fastforce
  with best have best': "nearest_day day (map fst dl) None = Some (day, 0)" by simp
  from ok mem have "coords \<noteq> []" by (force simp add: index_ok_def)
  with best' v ts show ?thesis by (simp add: infer_location_eq rounded_mean_eq)
qed

lemma infer_location_nearest:
  assumes "nearest_day (local_date env ts) (map fst dl) None = Some (day, delta)" "delta \<le> 3"
    and "map_of dl day = Some coords" "coords \<noteq> []"
  shows "infer_location env ts dl =
     Inr ((Some (py_round (fdiv (py_sum (map fst coords)) (fl (of_nat (length coords)))) 6),
           Some (py_round (fdiv (py_sum (map snd coords)) (fl (of_nat (length coords)))) 6),
           Some delta), dl)"
  using assms by (simp add: infer_location_eq rounded_mean_eq)

lemma average_10_12:
  "infer_location utc (noon 1) [(738886, [(Fin 10, Fin 20), (Fin 12, Fin 22)])] =
     Inr ((Some (Fin 11), Some (Fin 21), Some 0), [(738886, [(Fin 10, Fin 20), (Fin 12, Fin 22)])])"
  by code_simp

lemma pass1_index_coords:
  assumes "pass1 env initial_state files = Inr st1"
    and "map_of (day_locations st1) day = Some coords"
  shows "index_ok (day_locations st1) \<and> coords \<noteq> [] \<and>
    coords = map entry_coord (filter (\<lambda>e. entry_day env e = day) (geotagged st1))"
proof -
  note f1 = pass1_initial [OF assms(1)]
  have "index_ok (day_locations st1)" by (simp add: f1 index_ok_index_of)
  moreover from assms(2)
  have "coords \<noteq> [] \<and>
      coords = map entry_coord (filter (\<lambda>e. entry_day env e = day) (geotagged st1))"
    by (auto simp add: f1 index_of_map_of Let_def split: if_splits)
  ultimately show ?thesis by blast
qed

text \<open>
  C7.  For a day of the index, the coordinate that inference returns is the mean of the
  latitudes and the mean of the longitudes of all the coordinates of that day (sum divided
  by count), each rounded to 6 decimals: for a timestamp on that day, and for any timestamp
  for which that day is the selected one.  After pass 1 the coordinates of a day are those
  of all the exact records of that day, none left out.  The coordinates (10, 20) and
  (12, 22) of one day average to (11, 21).
\<close>

theorem average_coordinate:
  "(index_ok dl \<and> map_of dl day = Some coords \<and> local_date env ts = day \<longrightarrow>
      infer_location env ts dl =
        Inr ((Some (py_round (fdiv (py_sum (map fst coords)) (fl (of_nat (length coords)))) 6),
              Some (py_round (fdiv (py_sum (map snd coords)) (fl (of_nat (length coords)))) 6),
              Some 0), dl)) \<and>
   (nearest_day (local_date env ts) (map fst dl) None = Some (day, delta) \<and> delta \<le> 3 \<and>
    map_of dl day = Some coords \<and> coords \<noteq> [] \<longrightarrow>
      infer_location env ts dl =
        Inr ((Some (py_round (fdiv (py_sum (map fst coords)) (fl (of_nat (length coords)))) 6),
              Some (py_round (fdiv (py_sum (map snd coords)) (fl (of_nat (length coords)))) 6),
              Some delta), dl)) \<and>
   (pass1 env initial_state files = Inr st1 \<and> map_of (day_locations st1) day = Some coords \<longrightarrow>
      index_ok (day_locations st1) \<and> coords \<noteq> [] \<and>
      coords = map entry_coord (filter (\<lambda>e. entry_day env e = day) (geotagged st1))) \<and>
   infer_location utc (noon 1) [(738886, [(Fin 10, Fin 20), (Fin 12, Fin 22)])] =
     Inr ((Some (Fin 11), Some (Fin 21), Some 0), [(738886, [(Fin 10, Fin 20), (Fin 12, Fin 22)])])"
  using infer_location_same_day [of dl day coords env ts]
    infer_location_nearest [of env ts dl day delta coords]
    pass1_index_coords [of env files st1 day coords] average_10_12
  by blast

theorem average_coordinate_witness:
  "index_ok album_index \<and>
   map_of album_index 738886 = Some [(Fin 10, Fin 20), (Fin 12, Fin 22)] \<and>
   local_date utc (noon 1) = 738886 \<and>
   infer_location utc (noon 1) album_index =
     Inr ((Some (py_round (fdiv (py_sum (map fst [(Fin 10, Fin 20), (Fin 12, Fin 22)]))
             (fl (of_nat (length [(Fin 10, Fin 20), (Fin 12 :: pyfloat, Fin 22 :: pyfloat)])))) 6),
           Some (py_round (fdiv (py_sum (map snd [(Fin 10, Fin 20), (Fin 12, Fin 22)]))
             (fl (of_nat (length [(Fin 10, Fin 20), (Fin 12 :: pyfloat, Fin 22 :: pyfloat)])))) 6),
           Some 0), album_index) \<and>
   nearest_day (local_date utc (noon 3)) (map fst album_index) None = Some (738886, 2) \<and>
   (2 :: int) \<le> 3 \<and> [(Fin 10, Fin 20), (Fin 12, Fin 22)] \<noteq> [] \<and>
   infer_location utc (noon 3) album_index =
     Inr ((Some (py_round (fdiv (py_sum (map fst [(Fin 10, Fin 20), (Fin 12, Fin 22)]))
             (fl (of_nat (length [(Fin 10, Fin 20), (Fin 12 :: pyfloat, Fin 22 :: pyfloat)])))) 6),
           Some (py_round (fdiv (py_sum (map snd [(Fin 10, Fin 20), (Fin 12, Fin 22)]))
             (fl (of_nat (length [(Fin 10, Fin 20), (Fin 12 :: pyfloat, Fin 22 :: pyfloat)])))) 6),
           Some 2), album_index) \<and>
   py_round (fdiv (py_sum (map fst [(Fin 10, Fin 20), (Fin 12, Fin 22)]))
     (fl (of_nat (length [(Fin 10, Fin 20), (Fin 12 :: pyfloat, Fin 22 :: pyfloat)])))) 6 = Fin 11 \<and>
   py_round (fdiv (py_sum (map snd [(Fin 10, Fin 20), (Fin 12, Fin 22)]))
     (fl (of_nat (length [(Fin 10, Fin 20), (Fin 12 :: pyfloat, Fin 22 :: pyfloat)])))) 6 = Fin 21 \<and>
   pass1 utc initial_state album = Inr album_pass1 \<and>
   map_of (day_locations album_pass1) 738886 = Some [(Fin 10, Fin 20), (Fin 12, Fin 22)] \<and>
   [(Fin 10, Fin 20), (Fin 12, Fin 22)] =
     map entry_coord (filter (\<lambda>e. entry_day utc e = 738886) (geotagged album_pass1))"
proof -
  let ?cs = "[(Fin 10, Fin 20), (Fin 12 :: pyfloat, Fin 22 :: pyfloat)]"
  have ok: "index_ok album_index" by (simp add: album_index_def index_ok_def)
  have m: "map_of album_index 738886 = Some ?cs" by (simp add: album_index_def)
  have d: "local_date utc (noon 1) = 738886" by (simp add: utc_def noon_def)
  have n: "nearest_day (local_date utc (noon 3)) (map fst album_index) None = Some (738886, 2)"
    by (simp add: utc_def noon_def album_index_def)
  have le: "(2 :: int) \<le> 3" and ne: "?cs \<noteq> []" by simp_all
  have v1: "py_round (fdiv (py_sum (map fst ?cs)) (fl (of_nat (length ?cs)))) 6 = Fin 11"
    by code_simp
  have v2: "py_round (fdiv (py_sum (map snd ?cs)) (fl (of_nat (length ?cs)))) 6 = Fin 21"
    by code_simp
  note w1 = average_coordinate [of album_index 738886 ?cs utc "noon 1" 0]
  note w2 = average_coordinate [of album_index 738886 ?cs utc "noon 3" 2]
  from w1 ok m d have c1: "infer_location utc (noon 1) album_index =
     Inr ((Some (py_round (fdiv (py_sum (map fst ?cs)) (fl (of_nat (length ?cs)))) 6),
           Some (py_round (fdiv (py_sum (map snd ?cs)) (fl (of_nat (length ?cs)))) 6),
           Some 0), album_index)"
    by blast
  from w2 n le m ne have c2: "infer_location utc (noon 3) album_index =
     Inr ((Some (py_round (fdiv (py_sum (map fst ?cs)) (fl (of_nat (length ?cs)))) 6),
           Some (py_round (fdiv (py_sum (map snd ?cs)) (fl (of_nat (length ?cs)))) 6),
           Some 2), album_index)"
    by blast
  have m1: "map_of (day_locations album_pass1) 738886 = Some ?cs"
    by (simp add: album_pass1_def album_index_def)
  from w1 [of album album_pass1] album_pass1_run m1
  have c3: "?cs = map entry_coord (filter (\<lambda>e. entry_day utc e = 738886) (geotagged album_pass1))"
    by blast
  from ok m d c1 n le ne c2 v1 v2 album_pass1_run m1 c3 show ?thesis by blast
qed

lemma pass1_append:
  "pass1 env st (xs @ ys) = py_bind (pass1 env st xs) (\<lambda>st'. pass1 env st' ys)"
proof (induction xs arbitrary: st)
  case Nil
  show ?case by simp
next
  case (Cons x xs)
  show ?case by (cases "scan_file env st x") (simp_all add: Cons.IH)
qed

lemma map_filter_append:
  "List.map_filter f (xs @ ys) = List.map_filter f xs @ List.map_filter f ys"
  by (simp add: List.map_filter_def)

lemma not_usable_no_record:
  "\<not> usable env f \<Longrightarrow> exact_record env f = None \<and> pending_record env f = None"
  by (simp add: exact_record_def pending_record_def)

lemma spec_result_drop:
  assumes "\<not> usable env f"
  shows "spec_result env (xs @ f # ys) = spec_result env (xs @ ys)"
  using not_usable_no_record [OF assms]
  by (simp add: spec_result_def map_filter_append)

lemma not_usable_ignored:
  assumes "\<not> usable env f"
  shows "(scan_file env st f = Inr st' \<longrightarrow> st' = st) \<and>
    (pass1 env st (xs @ f # ys) = Inr st' \<longrightarrow> pass1 env st (xs @ ys) = Inr st') \<and>
    (scan_images env (xs @ f # ys) = Inr out \<longrightarrow> scan_images env (xs @ ys) = Inr out)"
proof -
  have add: "add_file env s f = s" for s
    using not_usable_no_record [OF assms] by (simp add: add_file_def)
  have "st' = st" if "scan_file env st f = Inr st'"
    using that add by (simp add: scan_file_eq split: option.splits)
  moreover have "pass1 env st (xs @ ys) = Inr st'" if "pass1 env st (xs @ f # ys) = Inr st'"
    using that add by (simp add: pass1_Inr_iff)
  moreover have "scan_images env (xs @ ys) = Inr out" if "scan_images env (xs @ f # ys) = Inr out"
    using that spec_result_drop [OF assms] by (simp add: scan_images_Inr_iff)
  ultimately show ?thesis by blast
qed

text \<open>
  C8.  A file without a timestamp, whatever its GPS data: if the loop body of pass 1 returns
  for it, the locals (output list, pending pool, index, counters) are unchanged, and a run
  that returns with the file in the input returns the same without it.
\<close>

theorem undated_file_ignored:
  assumes "date_taken f = None"
  shows "(scan_file env st f = Inr st' \<longrightarrow> st' = st) \<and>
    (pass1 env st (xs @ f # ys) = Inr st' \<longrightarrow> pass1 env st (xs @ ys) = Inr st') \<and>
    (scan_images env (xs @ f # ys) = Inr out \<longrightarrow> scan_images env (xs @ ys) = Inr out)"
proof -
  from assms have "\<not> usable env f" by (simp add: usable_def)
  then show ?thesis by (rule not_usable_ignored)
qed

theorem undated_file_ignored_witness:
  "date_taken undated = None \<and>
   get_gps_info utc (GPSInfo undated) = Inr (Some (Fin 10), Some (Fin 20)) \<and>
   scan_file utc one_day undated = Inr one_day \<and>
   pass1 utc initial_state ([] @ undated # [jpeg ''b.jpg'' 1 None]) =
     Inr (initial_state\<lparr>no_gps := [base_entry (jpeg ''b.jpg'' 1 None)]\<rparr>) \<and>
   pass1 utc initial_state ([] @ [jpeg ''b.jpg'' 1 None]) =
     Inr (initial_state\<lparr>no_gps := [base_entry (jpeg ''b.jpg'' 1 None)]\<rparr>) \<and>
   scan_images utc ([] @ undated # [jpeg ''b.jpg'' 1 None]) =
     Inr \<lparr>photos = [], exact_gps = 0, inferred = 0, unresolved = 1\<rparr> \<and>
   scan_images utc ([] @ [jpeg ''b.jpg'' 1 None]) =
     Inr \<lparr>photos = [], exact_gps = 0, inferred = 0, unresolved = 1\<rparr>"
proof -
  have h: "date_taken undated = None" by (simp add: undated_def)
  have g: "get_gps_info utc (GPSInfo undated) = Inr (Some (Fin 10), Some (Fin 20))"
    by (simp add: undated_def gps_block_10_20)
  have s: "scan_file utc one_day undated = Inr one_day" by code_simp
  have p: "pass1 utc initial_state ([] @ undated # [jpeg ''b.jpg'' 1 None]) =
     Inr (initial_state\<lparr>no_gps := [base_entry (jpeg ''b.jpg'' 1 None)]\<rparr>)"
    by code_simp
  have r: "scan_images utc ([] @ undated # [jpeg ''b.jpg'' 1 None]) =
     Inr \<lparr>photos = [], exact_gps = 0, inferred = 0, unresolved = 1\<rparr>"
    by code_simp
  from undated_file_ignored [OF h, of utc initial_state
      "initial_state\<lparr>no_gps := [base_entry (jpeg ''b.jpg'' 1 None)]\<rparr>" "[]" "[jpeg ''b.jpg'' 1 None]"
      "\<lparr>photos = [], exact_gps = 0, inferred = 0, unresolved = 1\<rparr>"] p r
  have "pass1 utc initial_state ([] @ [jpeg ''b.jpg'' 1 None]) =
     Inr (initial_state\<lparr>no_gps := [base_entry (jpeg ''b.jpg'' 1 None)]\<rparr>) \<and>
   scan_images utc ([] @ [jpeg ''b.jpg'' 1 None]) =
     Inr \<lparr>photos = [], exact_gps = 0, inferred = 0, unresolved = 1\<rparr>"
    by blast
  with h g s p r show ?thesis by blast
qed

lemma heic_failed_scan:
  "scan_images utc [heic ''a.heic'' 1 (Some (gps_block 10 ''N'' 20 ''E'')) None, jpeg ''b.jpg'' 2 None] =
     Inr \<lparr>photos = [], exact_gps = 0, inferred = 0, unresolved = 1\<rparr>"
  by code_simp

lemma heic_converted_scan:
  "scan_images utc
     [heic ''a.heic'' 1 (Some (gps_block 10 ''N'' 20 ''E'')) (Some ''images/converted/a.jpg''),
      jpeg ''b.jpg'' 2 None] =
     Inr \<lparr>photos =
            [\<lparr>filename = ''a.heic'', path = ''images/converted/a.jpg'', timestamp = noon 1,
              lat = Some (Fin 10), lng = Some (Fin 20), approximate = Some False\<rparr>,
             photo ''b.jpg'' 2 10 20 True],
          exact_gps = 1, inferred = 1, unresolved = 0\<rparr>"
  by code_simp

text \<open>
  C10.  A HEIC file with a timestamp and a coordinate, whose conversion fails, leaves the
  locals of pass 1 unchanged: it is not in the output and its coordinate is not in the day
  index, and the run is the same as without the file.  Had the conversion succeeded, the
  coordinate would have been inserted.  So the failure changes what is inferred for others:
  a pending photo of the next day is unresolved in the one case and inferred in the other.
\<close>

theorem failed_conversion_excluded:
  assumes "is_heic f" "date_taken f = Some ts"
    and "get_gps_info env (GPSInfo f) = Inr (Some la, Some lo)" "converted f = None"
  shows "scan_file env st f = Inr st \<and>
    scan_images env (xs @ f # ys) = scan_images env (xs @ ys) \<and>
    (HEIC_SUPPORT env \<longrightarrow>
       scan_file env st (f\<lparr>converted := Some p\<rparr>) =
         Inr (st\<lparr>geotagged := geotagged st @
                    [\<lparr>filename = file_name f, path = p, timestamp = ts,
                      lat = Some la, lng = Some lo, approximate = Some False\<rparr>],
                 day_locations := dd_append (day_locations st) (local_date env ts) (la, lo)\<rparr>)) \<and>
    scan_images utc
      [heic ''a.heic'' 1 (Some (gps_block 10 ''N'' 20 ''E'')) None, jpeg ''b.jpg'' 2 None] =
      Inr \<lparr>photos = [], exact_gps = 0, inferred = 0, unresolved = 1\<rparr> \<and>
    scan_images utc
      [heic ''a.heic'' 1 (Some (gps_block 10 ''N'' 20 ''E'')) (Some ''images/converted/a.jpg''),
       jpeg ''b.jpg'' 2 None] =
      Inr \<lparr>photos =
             [\<lparr>filename = ''a.heic'', path = ''images/converted/a.jpg'', timestamp = noon 1,
               lat = Some (Fin 10), lng = Some (Fin 20), approximate = Some False\<rparr>,
              photo ''b.jpg'' 2 10 20 True],
           exact_gps = 1, inferred = 1, unresolved = 0\<rparr>"
proof -
  have step: "scan_file env s f = Inr s" for s
    using assms by (simp add: scan_file_def)
  have "pass1 env s (xs @ f # ys) = pass1 env s (xs @ ys)" for s
    by (cases "pass1 env s xs") (simp_all add: pass1_append step)
  then have "scan_images env (xs @ f # ys) = scan_images env (xs @ ys)"
    by (simp add: scan_images_def)
  moreover have "scan_file env st (f\<lparr>converted := Some p\<rparr>) =
         Inr (st\<lparr>geotagged := geotagged st @
                    [\<lparr>filename = file_name f, path = p, timestamp = ts,
                      lat = Some la, lng = Some lo, approximate = Some False\<rparr>],
                 day_locations := dd_append (day_locations st) (local_date env ts) (la, lo)\<rparr>)"
    if "HEIC_SUPPORT env"
    using that assms by (simp add: scan_file_def)
  ultimately show ?thesis using step heic_failed_scan heic_converted_scan by blast
qed

theorem failed_conversion_excluded_witness:
  "is_heic (heic ''a.heic'' 1 (Some (gps_block 10 ''N'' 20 ''E'')) None) \<and>
   date_taken (heic ''a.heic'' 1 (Some (gps_block 10 ''N'' 20 ''E'')) None) = Some (noon 1) \<and>
   get_gps_info utc (GPSInfo (heic ''a.heic'' 1 (Some (gps_block 10 ''N'' 20 ''E'')) None)) =
     Inr (Some (Fin 10), Some (Fin 20)) \<and>
   converted (heic ''a.heic'' 1 (Some (gps_block 10 ''N'' 20 ''E'')) None) = None \<and>
   scan_file utc initial_state (heic ''a.heic'' 1 (Some (gps_block 10 ''N'' 20 ''E'')) None) =
     Inr initial_state \<and>
   scan_images utc
     ([] @ heic ''a.heic'' 1 (Some (gps_block 10 ''N'' 20 ''E'')) None # [jpeg ''b.jpg'' 2 None]) =
     scan_images utc ([] @ [jpeg ''b.jpg'' 2 None]) \<and>
   scan_images utc ([] @ [jpeg ''b.jpg'' 2 None]) =
     Inr \<lparr>photos = [], exact_gps = 0, inferred = 0, unresolved = 1\<rparr> \<and>
   HEIC_SUPPORT utc \<and>
   scan_file utc initial_state
     ((heic ''a.heic'' 1 (Some (gps_block 10 ''N'' 20 ''E'')) None)
        \<lparr>converted := Some ''images/converted/a.jpg''\<rparr>) =
     Inr (initial_state
       \<lparr>geotagged := geotagged initial_state @
          [\<lparr>filename = file_name (heic ''a.heic'' 1 (Some (gps_block 10 ''N'' 20 ''E'')) None),
            path = ''images/converted/a.jpg'', timestamp = noon 1,
            lat = Some (Fin 10), lng = Some (Fin 20), approximate = Some False\<rparr>],
        day_locations :=
          dd_append (day_locations initial_state) (local_date utc (noon 1)) (Fin 10, Fin 20)\<rparr>)"
proof -
  let ?f = "heic ''a.heic'' 1 (Some (gps_block 10 ''N'' 20 ''E'')) None"
  have h: "is_heic ?f" "date_taken ?f = Some (noon 1)" "converted ?f = None"
    by (simp_all add: heic_def)
  have hs: "HEIC_SUPPORT utc" by (simp add: utc_def)
  have g: "get_gps_info utc (GPSInfo ?f) = Inr (Some (Fin 10), Some (Fin 20))"
    by (simp add: heic_def gps_block_10_20)
  note w = failed_conversion_excluded [OF h(1) h(2) g h(3), of initial_state "[]"
      "[jpeg ''b.jpg'' 2 None]" "''images/converted/a.jpg''"]
  have r: "scan_images utc ([] @ [jpeg ''b.jpg'' 2 None]) =
     Inr \<lparr>photos = [], exact_gps = 0, inferred = 0, unresolved = 1\<rparr>"
    by code_simp
  from w h hs g r show ?thesis by blast
qed

end
